theory Spec2Isabelle
  imports Main
begin

section \<open>Data model\<close>

text \<open>
  The backend keeps its documents in MongoDB collections and its live connections in the
  socket server. ObjectIds are modelled as natural numbers, dates as milliseconds since
  the epoch, socket ids and room names as strings. A collection whose query order matters
  (the waiting pool, the sessions) is the list of its documents in natural order: an
  insert appends, \<open>findOne\<close> returns the first document that satisfies the query,
  \<open>deleteOne\<close> removes the first, \<open>deleteMany\<close> removes all. Users and topics are
  only ever addressed by id and are maps.
\<close>

type_synonym oid = nat
type_synonym payload = string

text \<open>
  An id as it arrives in a request body, in a route parameter or in the data of a socket
  event: absent, present but not a 24 digit hexadecimal ObjectId, or an ObjectId.
\<close>

datatype raw_id = Missing | Malformed | Oid oid

text \<open>models/WaitingPool.js\<close>

record waiting_entry =
  we_id :: oid
  we_user :: oid
  we_topic :: oid
  we_joinedAt :: nat
  we_socketId :: string
  we_isActive :: bool

text \<open>
  models/Session.js: \<open>status\<close> is one of 'waiting', 'active', 'completed' and
  'cancelled'. The feedback fields are flattened; \<open>connectionDetails\<close>, which no
  handler touches, is left out.
\<close>

datatype session_status = Waiting | Active | Completed | Cancelled

record session =
  s_id :: oid
  s_topic :: oid
  s_user1 :: oid
  s_user2 :: oid
  s_roomId :: string
  s_status :: session_status
  s_startTime :: nat
  s_endTime :: "nat option"
  s_duration :: int
  s_user1Rating :: "int option"
  s_user1Comment :: "string option"
  s_user2Rating :: "int option"
  s_user2Comment :: "string option"

text \<open>
  models/Topic.js, with the fields the matching and session handlers read or write
  (\<open>averageRating\<close> is a floating point mean and is left out).
\<close>

record topic =
  t_name :: string
  t_isActive :: bool
  t_sessionsCount :: nat

text \<open>
  Modelled from the spec: the User schema (models/User.js) is not among the sources. An
  identity has a unique id (the key in the \<open>users\<close> map), a display name and an
  activity timestamp; \<open>sessionsCompleted\<close> is the counter that the end handler
  increments with \<open>$inc\<close>.
\<close>

record user =
  u_username :: string
  u_sessionsCompleted :: nat
  u_lastSeen :: nat

text \<open>An entry of the \<open>activeConnections\<close> map of socket/socketHandler.js.\<close>

record connection =
  c_socketId :: string
  c_connectedAt :: nat
  c_status :: "string option"

text \<open>A connected, authenticated socket: \<open>socket.id\<close>, \<open>socket.userId\<close>, \<open>socket.user.username\<close>.\<close>

record socket =
  sock_id :: string
  sock_userId :: oid
  sock_username :: string

text \<open>The events the server emits to sockets, each with the fields of its payload.\<close>

datatype event =
    EvMatchFound session oid
  | EvSessionEnded oid oid
  | EvSessionCancelled oid oid
  | EvWaitingPoolJoined raw_id string
  | EvWaitingPoolLeft raw_id
  | EvParticipantJoined oid string
  | EvSessionJoined raw_id string
  | EvParticipantLeft oid string
  | EvOffer payload oid
  | EvAnswer payload oid
  | EvIceCandidate payload oid
  | EvSessionMessage payload oid string nat
  | EvTyping oid string bool
  | EvParticipantDisconnected oid string string
  | EvError string

type_synonym emission = "string \<times> event"

text \<open>
  The whole server: the four collections, the connection registry and the rooms of the
  socket server (room name to the ids of the sockets in it, in joining order).
\<close>

record server =
  topics :: "oid \<rightharpoonup> topic"
  users :: "oid \<rightharpoonup> user"
  waitingPool :: "waiting_entry list"
  sessions :: "session list"
  activeConnections :: "oid \<rightharpoonup> connection"
  rooms :: "string \<Rightarrow> string list"

section \<open>Collections\<close>

text \<open>
  Inserting a new waiting entry fails with a duplicate key error when its \<open>_id\<close> is taken
  or when the unique index on (user, topic) already holds the pair.
\<close>

definition insert_entry :: "waiting_entry \<Rightarrow> waiting_entry list \<Rightarrow> waiting_entry list option" where
  "insert_entry e pool =
     (if \<exists>x \<in> set pool. we_id x = we_id e \<or> (we_user x = we_user e \<and> we_topic x = we_topic e)
      then None else Some (pool @ [e]))"

fun delete_first :: "(waiting_entry \<Rightarrow> bool) \<Rightarrow> waiting_entry list \<Rightarrow> waiting_entry list" where
  "delete_first q [] = []"
| "delete_first q (e # es) = (if q e then es else e # delete_first q es)"

fun update_first ::
  "(waiting_entry \<Rightarrow> bool) \<Rightarrow> (waiting_entry \<Rightarrow> waiting_entry) \<Rightarrow> waiting_entry list \<Rightarrow> waiting_entry list" where
  "update_first q f [] = []"
| "update_first q f (e # es) = (if q e then f e # es else e # update_first q f es)"

definition deleteOne :: "oid \<Rightarrow> waiting_entry list \<Rightarrow> waiting_entry list" where
  "deleteOne i pool = delete_first (\<lambda>e. we_id e = i) pool"

definition deleteMany :: "(waiting_entry \<Rightarrow> bool) \<Rightarrow> waiting_entry list \<Rightarrow> waiting_entry list" where
  "deleteMany q pool = filter (\<lambda>e. \<not> q e) pool"

text \<open>
  The \<open>pre('save')\<close> hook of the Session schema: with both times present the duration is
  \<open>Math.round((endTime - startTime) / (1000 * 60))\<close>, rounding halves up.
\<close>

definition pre_save :: "session \<Rightarrow> session" where
  "pre_save s =
     (case s_endTime s of
        None \<Rightarrow> s
      | Some e \<Rightarrow> s\<lparr>s_duration := (2 * (int e - int (s_startTime s)) + 60000) div 120000\<rparr>)"

text \<open>
  Saving a new session fails with a duplicate key error when its \<open>_id\<close> or its
  \<open>roomId\<close> (unique in the schema) is taken.
\<close>

definition insert_session :: "session \<Rightarrow> session list \<Rightarrow> session list option" where
  "insert_session s ss =
     (if \<exists>x \<in> set ss. s_id x = s_id s \<or> s_roomId x = s_roomId s
      then None else Some (ss @ [pre_save s]))"

definition findById :: "oid \<Rightarrow> session list \<Rightarrow> session option" where
  "findById i ss = find (\<lambda>s. s_id s = i) ss"

text \<open>
  Saving a session that was loaded with \<open>findById\<close> and then modified is one update of
  the stored document with that \<open>_id\<close>. It sets the paths whose value in the
  handler's document, after the \<open>pre('save')\<close> hook, differs from the loaded value
  and leaves the other paths of the stored document as they are at that moment; no
  version is checked. The handlers assign the status, the end time and the feedback
  fields, the hook the duration. The save fails when no document has the id.
\<close>

fun update_session :: "oid \<Rightarrow> (session \<Rightarrow> session) \<Rightarrow> session list \<Rightarrow> session list option" where
  "update_session i f [] = None"
| "update_session i f (x # xs) =
     (if s_id x = i then Some (f x # xs) else map_option ((#) x) (update_session i f xs))"

definition save_paths :: "session \<Rightarrow> session \<Rightarrow> session \<Rightarrow> session" where
  "save_paths loaded doc stored =
     stored\<lparr>s_status := (if s_status doc = s_status loaded then s_status stored else s_status doc),
            s_endTime := (if s_endTime doc = s_endTime loaded then s_endTime stored else s_endTime doc),
            s_duration := (if s_duration doc = s_duration loaded then s_duration stored else s_duration doc),
            s_user1Rating :=
              (if s_user1Rating doc = s_user1Rating loaded then s_user1Rating stored else s_user1Rating doc),
            s_user1Comment :=
              (if s_user1Comment doc = s_user1Comment loaded then s_user1Comment stored else s_user1Comment doc),
            s_user2Rating :=
              (if s_user2Rating doc = s_user2Rating loaded then s_user2Rating stored else s_user2Rating doc),
            s_user2Comment :=
              (if s_user2Comment doc = s_user2Comment loaded then s_user2Comment stored else s_user2Comment doc)\<rparr>"

definition save_session :: "session \<Rightarrow> session \<Rightarrow> session list \<Rightarrow> session list option" where
  "save_session loaded doc ss = update_session (s_id loaded) (save_paths loaded (pre_save doc)) ss"

section \<open>Emitting to rooms\<close>

definition io_to :: "(string \<Rightarrow> string list) \<Rightarrow> string \<Rightarrow> event \<Rightarrow> emission list" where
  "io_to rms room ev = map (\<lambda>sid. (sid, ev)) (rms room)"

definition socket_to :: "(string \<Rightarrow> string list) \<Rightarrow> socket \<Rightarrow> string \<Rightarrow> event \<Rightarrow> emission list" where
  "socket_to rms sock room ev =
     map (\<lambda>sid. (sid, ev)) (filter (\<lambda>sid. sid \<noteq> sock_id sock) (rms room))"

definition socket_emit :: "socket \<Rightarrow> event \<Rightarrow> emission list" where
  "socket_emit sock ev = [(sock_id sock, ev)]"

definition socket_join :: "string \<Rightarrow> string \<Rightarrow> (string \<Rightarrow> string list) \<Rightarrow> (string \<Rightarrow> string list)" where
  "socket_join sid room rms =
     (if sid \<in> set (rms room) then rms else rms(room := rms room @ [sid]))"

definition socket_leave :: "string \<Rightarrow> string \<Rightarrow> (string \<Rightarrow> string list) \<Rightarrow> (string \<Rightarrow> string list)" where
  "socket_leave sid room rms = rms(room := removeAll sid (rms room))"

definition leave_all :: "string \<Rightarrow> (string \<Rightarrow> string list) \<Rightarrow> (string \<Rightarrow> string list)" where
  "leave_all sid rms = (\<lambda>room. removeAll sid (rms room))"

text \<open>Decimal digits, for the places where the source puts a number into a string.\<close>

fun nat_str :: "nat \<Rightarrow> string" where
  "nat_str n =
     (if n < 10 then [''0123456789'' ! n]
      else nat_str (n div 10) @ [''0123456789'' ! (n mod 10)])"

declare nat_str.simps [simp del]

section \<open>The matching routes (routes/matching.js)\<close>

text \<open>
  A join request with what its handler draws from the environment: \<open>req.user._id\<close>,
  \<open>req.body.topicId\<close>, \<open>req.body.socketId\<close>, the clock (\<open>Date.now()\<close>, taken
  to read the same instant throughout one request), the \<open>_id\<close> generated for the
  document the handler creates, and the room id from \<open>uuidv4()\<close>.
\<close>

record join_request =
  jr_user :: oid
  jr_topicId :: raw_id
  jr_socketId :: "string option"
  jr_now :: nat
  jr_newId :: oid
  jr_uuid :: string

datatype join_response =
    ValidationFailed
  | TopicNotFound
  | AlreadyInPool
  | InActiveSession
  | MatchFound session waiting_entry
  | AddedToPool waiting_entry
  | ServerError

text \<open>The three queries of the join handler.\<close>

definition existingEntry_query :: "oid \<Rightarrow> oid \<Rightarrow> waiting_entry \<Rightarrow> bool" where
  "existingEntry_query userId topicId e \<longleftrightarrow>
     we_user e = userId \<and> we_topic e = topicId \<and> we_isActive e"

definition activeSession_query :: "oid \<Rightarrow> session \<Rightarrow> bool" where
  "activeSession_query userId s \<longleftrightarrow>
     (s_user1 s = userId \<or> s_user2 s = userId) \<and> (s_status s = Waiting \<or> s_status s = Active)"

definition waitingUser_query :: "oid \<Rightarrow> oid \<Rightarrow> waiting_entry \<Rightarrow> bool" where
  "waitingUser_query userId topicId e \<longleftrightarrow>
     we_topic e = topicId \<and> we_user e \<noteq> userId \<and> we_isActive e"

definition new_session :: "join_request \<Rightarrow> oid \<Rightarrow> waiting_entry \<Rightarrow> session" where
  "new_session rq topicId waitingUser =
     \<lparr>s_id = jr_newId rq, s_topic = topicId, s_user1 = we_user waitingUser,
      s_user2 = jr_user rq, s_roomId = jr_uuid rq, s_status = Active,
      s_startTime = jr_now rq, s_endTime = None, s_duration = 0,
      s_user1Rating = None, s_user1Comment = None,
      s_user2Rating = None, s_user2Comment = None\<rparr>"

definition new_entry :: "join_request \<Rightarrow> oid \<Rightarrow> waiting_entry" where
  "new_entry rq topicId =
     \<lparr>we_id = jr_newId rq, we_user = jr_user rq, we_topic = topicId,
      we_joinedAt = jr_now rq,
      we_socketId = (case jr_socketId rq of
                       None \<Rightarrow> ''temp-'' @ nat_str (jr_now rq)
                     | Some sid \<Rightarrow> if sid = [] then ''temp-'' @ nat_str (jr_now rq) else sid),
      we_isActive = True\<rparr>"

text \<open>
  POST /matching/join. Every thrown error ends in the handler's \<open>catch\<close> as a 500:
  a duplicate key on a save, and reading \<open>waitingUser.user._id\<close> when \<open>populate\<close>
  found no user document for the waiting entry.
\<close>

definition join :: "server \<Rightarrow> join_request \<Rightarrow> server \<times> join_response \<times> emission list" where
  "join sv rq =
     (case jr_topicId rq of
        Missing \<Rightarrow> (sv, ValidationFailed, [])
      | Malformed \<Rightarrow> (sv, ValidationFailed, [])
      | Oid topicId \<Rightarrow>
          (case topics sv topicId of
             None \<Rightarrow> (sv, TopicNotFound, [])
           | Some tp \<Rightarrow>
               if \<not> t_isActive tp then (sv, TopicNotFound, [])
               else if find (existingEntry_query (jr_user rq) topicId) (waitingPool sv) \<noteq> None
                 then (sv, AlreadyInPool, [])
               else if find (activeSession_query (jr_user rq)) (sessions sv) \<noteq> None
                 then (sv, InActiveSession, [])
               else
                 (case find (waitingUser_query (jr_user rq) topicId) (waitingPool sv) of
                    Some waitingUser \<Rightarrow>
                      (case users sv (we_user waitingUser) of
                         None \<Rightarrow> (sv, ServerError, [])
                       | Some _ \<Rightarrow>
                           (case insert_session (new_session rq topicId waitingUser) (sessions sv) of
                              None \<Rightarrow> (sv, ServerError, [])
                            | Some ss \<Rightarrow>
                                (sv\<lparr>sessions := ss,
                                    waitingPool := deleteOne (we_id waitingUser) (waitingPool sv)\<rparr>,
                                 MatchFound (new_session rq topicId waitingUser) waitingUser,
                                 io_to (rooms sv) (we_socketId waitingUser)
                                   (EvMatchFound (new_session rq topicId waitingUser) (jr_user rq)))))
                  | None \<Rightarrow>
                      (case insert_entry (new_entry rq topicId) (waitingPool sv) of
                         None \<Rightarrow> (sv, ServerError, [])
                       | Some pool \<Rightarrow>
                           (sv\<lparr>waitingPool := pool\<rparr>, AddedToPool (new_entry rq topicId), [])))))"

text \<open>
  POST /matching/leave. The route declares a validator for \<open>topicId\<close> but never reads
  its result, so a malformed id reaches the query and the cast error ends in the
  \<open>catch\<close>.
\<close>

datatype reply =
    NotFound
  | AccessDenied
  | AlreadyEnded
  | SessionEndedOk session
  | SessionCancelledOk
  | RemovedFromAllPools
  | LeftWaitingPool nat
  | FeedbackInvalid
  | NotCompleted
  | FeedbackAlreadySubmitted
  | FeedbackSubmitted
  | InternalError

definition leave_query :: "oid \<Rightarrow> raw_id \<Rightarrow> waiting_entry \<Rightarrow> bool" where
  "leave_query userId topicId e \<longleftrightarrow>
     we_user e = userId \<and> we_isActive e \<and>
     (case topicId of Oid t \<Rightarrow> we_topic e = t | _ \<Rightarrow> True)"

definition leave :: "server \<Rightarrow> oid \<Rightarrow> raw_id \<Rightarrow> server \<times> reply" where
  "leave sv userId topicId =
     (if topicId = Malformed then (sv, InternalError)
      else (sv\<lparr>waitingPool := deleteMany (leave_query userId topicId) (waitingPool sv)\<rparr>,
            LeftWaitingPool (length (filter (leave_query userId topicId) (waitingPool sv)))))"

definition isParticipant :: "session \<Rightarrow> oid \<Rightarrow> bool" where
  "isParticipant s userId \<longleftrightarrow> s_user1 s = userId \<or> s_user2 s = userId"

text \<open>
  The session id in the body of a cancel request. The route declares a validator for it
  but never reads the result, so any value reaches the handler: a falsy one (absent,
  null, the empty string), one that \<open>findById\<close> cannot cast to an ObjectId (the cast
  error ends in the \<open>catch\<close>), an ObjectId, or an object of query operators, which
  \<open>findById\<close> passes on as the condition on \<open>_id\<close> and which stands here for the
  ids it selects.
\<close>

datatype session_ref = NoRef | BadRef | RefOid oid | RefQuery "oid \<Rightarrow> bool"

fun find_ref :: "session_ref \<Rightarrow> session list \<Rightarrow> session option" where
  "find_ref (RefOid i) ss = findById i ss"
| "find_ref (RefQuery p) ss = find (\<lambda>s. p (s_id s)) ss"
| "find_ref NoRef ss = None"
| "find_ref BadRef ss = None"

text \<open>
  POST /matching/cancel with a session id, up to the handler's first \<open>await\<close> and the
  checks on what it returns: either the early answer, or the loaded session together
  with the handler's document, on which status and end time are set.
\<close>

definition cancel_lookup :: "server \<Rightarrow> oid \<Rightarrow> session_ref \<Rightarrow> nat \<Rightarrow> reply + session \<times> session" where
  "cancel_lookup sv userId sessionId now =
     (if sessionId = BadRef then Inl InternalError
      else
        (case find_ref sessionId (sessions sv) of
           None \<Rightarrow> Inl NotFound
         | Some s \<Rightarrow>
             if \<not> isParticipant s userId then Inl AccessDenied
             else if s_status s = Completed \<or> s_status s = Cancelled then Inl AlreadyEnded
             else Inr (s, s\<lparr>s_status := Cancelled, s_endTime := Some now\<rparr>)))"

text \<open>
  The cancel handler when no other handler runs between its awaits: without a session id
  it deletes the user's active waiting entries; with one it looks the session up, saves
  it as cancelled and tells the room.
\<close>

definition cancel :: "server \<Rightarrow> oid \<Rightarrow> session_ref \<Rightarrow> nat \<Rightarrow> server \<times> reply \<times> emission list" where
  "cancel sv userId sessionId now =
     (if sessionId = NoRef then
        (sv\<lparr>waitingPool := deleteMany (\<lambda>e. we_user e = userId \<and> we_isActive e) (waitingPool sv)\<rparr>,
         RemovedFromAllPools, [])
      else
        (case cancel_lookup sv userId sessionId now of
           Inl r \<Rightarrow> (sv, r, [])
         | Inr (s, doc) \<Rightarrow>
             (case save_session s doc (sessions sv) of
                None \<Rightarrow> (sv, InternalError, [])
              | Some ss \<Rightarrow>
                  (sv\<lparr>sessions := ss\<rparr>, SessionCancelledOk,
                   io_to (rooms sv) (s_roomId doc) (EvSessionCancelled (s_id doc) userId)))))"

section \<open>The session routes (routes/sessions.js)\<close>

definition inc_sessionsCompleted :: "oid \<Rightarrow> (oid \<rightharpoonup> user) \<Rightarrow> (oid \<rightharpoonup> user)" where
  "inc_sessionsCompleted i us =
     (case us i of
        None \<Rightarrow> us
      | Some u \<Rightarrow> us(i \<mapsto> u\<lparr>u_sessionsCompleted := Suc (u_sessionsCompleted u)\<rparr>))"

definition inc_sessionsCount :: "oid \<Rightarrow> (oid \<rightharpoonup> topic) \<Rightarrow> (oid \<rightharpoonup> topic)" where
  "inc_sessionsCount i ts =
     (case ts i of
        None \<Rightarrow> ts
      | Some t \<Rightarrow> ts(i \<mapsto> t\<lparr>t_sessionsCount := Suc (t_sessionsCount t)\<rparr>))"

text \<open>
  PATCH /sessions/:id/end, up to the handler's first \<open>await\<close> and the checks on what
  it returns: either the early answer, or the loaded session together with the handler's
  document, on which status and end time are set.
\<close>

definition end_lookup :: "server \<Rightarrow> oid \<Rightarrow> raw_id \<Rightarrow> nat \<Rightarrow> reply + session \<times> session" where
  "end_lookup sv userId sessionId now =
     (case sessionId of
        Missing \<Rightarrow> Inl NotFound
      | Malformed \<Rightarrow> Inl InternalError
      | Oid i \<Rightarrow>
          (case findById i (sessions sv) of
             None \<Rightarrow> Inl NotFound
           | Some s \<Rightarrow>
               if \<not> isParticipant s userId then Inl AccessDenied
               else if s_status s = Completed \<or> s_status s = Cancelled then Inl AlreadyEnded
               else Inr (s, s\<lparr>s_status := Completed, s_endTime := Some now\<rparr>)))"

text \<open>
  The end handler when no other handler runs between its awaits: lookup and checks, the
  save, the two \<open>$inc\<close> updates of the participants' counters, the \<open>$inc\<close> of the
  topic's counter, then the event to the room and the answer.
\<close>

definition end_session :: "server \<Rightarrow> oid \<Rightarrow> raw_id \<Rightarrow> nat \<Rightarrow> server \<times> reply \<times> emission list" where
  "end_session sv userId sessionId now =
     (case end_lookup sv userId sessionId now of
        Inl r \<Rightarrow> (sv, r, [])
      | Inr (s, doc) \<Rightarrow>
          (case save_session s doc (sessions sv) of
             None \<Rightarrow> (sv, InternalError, [])
           | Some ss \<Rightarrow>
               (sv\<lparr>sessions := ss,
                   users := inc_sessionsCompleted (s_user2 doc) (inc_sessionsCompleted (s_user1 doc) (users sv)),
                   topics := inc_sessionsCount (s_topic doc) (topics sv)\<rparr>,
                SessionEndedOk (pre_save doc),
                io_to (rooms sv) (s_roomId doc) (EvSessionEnded (s_id doc) userId))))"

text \<open>
  POST /sessions/:id/feedback, when no other handler runs between its awaits.
  \<open>fb_comment\<close> is the comment after the validator has trimmed it. Once both ratings
  are there the handler recomputes the topic's floating point \<open>averageRating\<close>, a
  field this model does not carry, dividing by the topic's \<open>sessionsCount\<close>. For a
  count of zero the quotient is infinite or not a number, the schema's bounds of 0 and 5
  refuse it and the topic's save throws, after the session has been saved; for a positive
  count the new average lies between the old one and the session's.
\<close>

record feedback_request =
  fb_user :: oid
  fb_sessionId :: raw_id
  fb_rating :: int
  fb_comment :: "string option"

definition truthy :: "int option \<Rightarrow> bool" where
  "truthy r \<longleftrightarrow> (case r of None \<Rightarrow> False | Some n \<Rightarrow> n \<noteq> 0)"

definition feedback_doc :: "feedback_request \<Rightarrow> session \<Rightarrow> reply + session \<times> session" where
  "feedback_doc rq s =
     (if s_user1 s \<noteq> fb_user rq \<and> s_user2 s \<noteq> fb_user rq then Inl AccessDenied
      else if s_status s \<noteq> Completed then Inl NotCompleted
      else if s_user1 s = fb_user rq then
        (if truthy (s_user1Rating s) then Inl FeedbackAlreadySubmitted
         else Inr (s, s\<lparr>s_user1Rating := Some (fb_rating rq), s_user1Comment := fb_comment rq\<rparr>))
      else
        (if truthy (s_user2Rating s) then Inl FeedbackAlreadySubmitted
         else Inr (s, s\<lparr>s_user2Rating := Some (fb_rating rq), s_user2Comment := fb_comment rq\<rparr>)))"

definition feedback :: "server \<Rightarrow> feedback_request \<Rightarrow> server \<times> reply" where
  "feedback sv rq =
     (if \<not> (1 \<le> fb_rating rq \<and> fb_rating rq \<le> 5) \<or>
         (case fb_comment rq of None \<Rightarrow> False | Some c \<Rightarrow> 500 < length c)
      then (sv, FeedbackInvalid)
      else
        (case fb_sessionId rq of
           Missing \<Rightarrow> (sv, NotFound)
         | Malformed \<Rightarrow> (sv, InternalError)
         | Oid i \<Rightarrow>
             (case findById i (sessions sv) of
                None \<Rightarrow> (sv, NotFound)
              | Some s \<Rightarrow>
                  (case feedback_doc rq s of
                     Inl r \<Rightarrow> (sv, r)
                   | Inr (loaded, doc) \<Rightarrow>
                       (case save_session loaded doc (sessions sv) of
                          None \<Rightarrow> (sv, InternalError)
                        | Some ss \<Rightarrow>
                            (sv\<lparr>sessions := ss\<rparr>,
                             if truthy (s_user1Rating doc) \<and> truthy (s_user2Rating doc) \<and>
                                (case topics sv (s_topic doc) of
                                   None \<Rightarrow> False
                                 | Some t \<Rightarrow> t_sessionsCount t = 0)
                             then InternalError
                             else FeedbackSubmitted))))))"

section \<open>The socket handlers (socket/socketHandler.js)\<close>

definition touch_lastSeen :: "oid \<Rightarrow> nat \<Rightarrow> (oid \<rightharpoonup> user) \<Rightarrow> (oid \<rightharpoonup> user)" where
  "touch_lastSeen i now us =
     (case us i of None \<Rightarrow> us | Some u \<Rightarrow> us(i \<mapsto> u\<lparr>u_lastSeen := now\<rparr>))"

text \<open>
  A new connection overwrites the registry entry of its user and joins the user's
  personal room. The socket server itself puts every socket into the room named by the
  socket's own id.
\<close>

definition on_connection :: "server \<Rightarrow> socket \<Rightarrow> nat \<Rightarrow> server" where
  "on_connection sv sock now =
     sv\<lparr>activeConnections := (activeConnections sv)(sock_userId sock \<mapsto>
           \<lparr>c_socketId = sock_id sock, c_connectedAt = now, c_status = None\<rparr>),
        users := touch_lastSeen (sock_userId sock) now (users sv),
        rooms := socket_join (sock_id sock) (''user_'' @ nat_str (sock_userId sock))
                   (socket_join (sock_id sock) (sock_id sock) (rooms sv))\<rparr>"

datatype client_event =
    JoinWaitingPool raw_id
  | LeaveWaitingPool raw_id
  | JoinSession raw_id string
  | LeaveSession string
  | Offer string payload
  | Answer string payload
  | IceCandidate string payload
  | SessionMessage string payload
  | Typing string bool
  | UpdateStatus string
  | Disconnect string

definition waiting_room :: "raw_id \<Rightarrow> string" where
  "waiting_room topicId =
     ''waiting_'' @ (case topicId of Oid t \<Rightarrow> nat_str t | _ \<Rightarrow> ''undefined'')"

definition socket_pool_query :: "socket \<Rightarrow> raw_id \<Rightarrow> waiting_entry \<Rightarrow> bool" where
  "socket_pool_query sock topicId e \<longleftrightarrow>
     we_user e = sock_userId sock \<and> topicId = Oid (we_topic e) \<and> we_isActive e"

definition disconnect_query :: "socket \<Rightarrow> waiting_entry \<Rightarrow> bool" where
  "disconnect_query sock e \<longleftrightarrow> we_user e = sock_userId sock \<and> we_socketId e = sock_id sock"

definition activeSessions :: "socket \<Rightarrow> session list \<Rightarrow> session list" where
  "activeSessions sock ss =
     filter (\<lambda>s. (s_user1 s = sock_userId sock \<or> s_user2 s = sock_userId sock) \<and> s_status s = Active) ss"

text \<open>
  The handlers of one socket. A malformed id makes the database call throw, which the
  handlers with a \<open>try\<close> answer with an error event. When \<open>disconnect\<close> fires the
  socket server has already taken the socket out of all its rooms.
\<close>

fun on_event :: "server \<Rightarrow> socket \<Rightarrow> client_event \<Rightarrow> nat \<Rightarrow> server \<times> emission list" where
  "on_event sv sock (JoinWaitingPool topicId) now =
     (if topicId = Malformed then (sv, socket_emit sock (EvError ''Failed to join waiting pool''))
      else
        (sv\<lparr>waitingPool := update_first (socket_pool_query sock topicId)
                               (\<lambda>e. e\<lparr>we_socketId := sock_id sock\<rparr>) (waitingPool sv),
            rooms := socket_join (sock_id sock) (waiting_room topicId) (rooms sv)\<rparr>,
         socket_emit sock (EvWaitingPoolJoined topicId (sock_id sock))))"
| "on_event sv sock (LeaveWaitingPool topicId) now =
     (if topicId = Malformed then (sv, socket_emit sock (EvError ''Failed to leave waiting pool''))
      else
        (sv\<lparr>waitingPool := delete_first (socket_pool_query sock topicId) (waitingPool sv),
            rooms := socket_leave (sock_id sock) (waiting_room topicId) (rooms sv)\<rparr>,
         socket_emit sock (EvWaitingPoolLeft topicId)))"
| "on_event sv sock (JoinSession sessionId roomId) now =
     (case sessionId of
        Malformed \<Rightarrow> (sv, socket_emit sock (EvError ''Failed to join session''))
      | Missing \<Rightarrow> (sv, socket_emit sock (EvError ''Session not found''))
      | Oid i \<Rightarrow>
          (case findById i (sessions sv) of
             None \<Rightarrow> (sv, socket_emit sock (EvError ''Session not found''))
           | Some s \<Rightarrow>
               if \<not> isParticipant s (sock_userId sock)
               then (sv, socket_emit sock (EvError ''Access denied to session''))
               else
                 (sv\<lparr>rooms := socket_join (sock_id sock) roomId (rooms sv)\<rparr>,
                  socket_to (socket_join (sock_id sock) roomId (rooms sv)) sock roomId
                    (EvParticipantJoined (sock_userId sock) (sock_username sock))
                  @ socket_emit sock (EvSessionJoined sessionId roomId))))"
| "on_event sv sock (LeaveSession roomId) now =
     (sv\<lparr>rooms := socket_leave (sock_id sock) roomId (rooms sv)\<rparr>,
      socket_to (socket_leave (sock_id sock) roomId (rooms sv)) sock roomId
        (EvParticipantLeft (sock_userId sock) (sock_username sock)))"
| "on_event sv sock (Offer roomId offer) now =
     (sv, socket_to (rooms sv) sock roomId (EvOffer offer (sock_userId sock)))"
| "on_event sv sock (Answer roomId answer) now =
     (sv, socket_to (rooms sv) sock roomId (EvAnswer answer (sock_userId sock)))"
| "on_event sv sock (IceCandidate roomId candidate) now =
     (sv, socket_to (rooms sv) sock roomId (EvIceCandidate candidate (sock_userId sock)))"
| "on_event sv sock (SessionMessage roomId message) now =
     (sv, socket_to (rooms sv) sock roomId
            (EvSessionMessage message (sock_userId sock) (sock_username sock) now))"
| "on_event sv sock (Typing roomId isTyping) now =
     (sv, socket_to (rooms sv) sock roomId
            (EvTyping (sock_userId sock) (sock_username sock) isTyping))"
| "on_event sv sock (UpdateStatus status) now =
     (sv\<lparr>activeConnections :=
           (case activeConnections sv (sock_userId sock) of
              None \<Rightarrow> activeConnections sv
            | Some c \<Rightarrow> (activeConnections sv)(sock_userId sock \<mapsto> c\<lparr>c_status := Some status\<rparr>)),
         users := touch_lastSeen (sock_userId sock) now (users sv)\<rparr>, [])"
| "on_event sv sock (Disconnect reason) now =
     (sv\<lparr>activeConnections := (activeConnections sv)(sock_userId sock := None),
         users := touch_lastSeen (sock_userId sock) now (users sv),
         waitingPool := deleteMany (disconnect_query sock) (waitingPool sv),
         rooms := leave_all (sock_id sock) (rooms sv)\<rparr>,
      concat (map (\<lambda>s. socket_to (leave_all (sock_id sock) (rooms sv)) sock (s_roomId s)
                          (EvParticipantDisconnected (sock_userId sock) (sock_username sock) reason))
                  (activeSessions sock (sessions sv))))"

section \<open>The server as a transition system\<close>

text \<open>
  The requests and socket events the server handles. In \<open>apply_action\<close> and
  \<open>run\<close> every one is handled to its end before the next one starts.
\<close>

datatype action =
    HttpJoin join_request
  | HttpLeave oid raw_id
  | HttpCancel oid session_ref nat
  | HttpEnd oid raw_id nat
  | HttpFeedback feedback_request
  | SocketConnect socket nat
  | SocketEvent socket client_event nat

fun apply_action :: "server \<Rightarrow> action \<Rightarrow> server" where
  "apply_action sv (HttpJoin rq) = fst (join sv rq)"
| "apply_action sv (HttpLeave userId topicId) = fst (leave sv userId topicId)"
| "apply_action sv (HttpCancel userId sessionId now) = fst (cancel sv userId sessionId now)"
| "apply_action sv (HttpEnd userId sessionId now) = fst (end_session sv userId sessionId now)"
| "apply_action sv (HttpFeedback rq) = fst (feedback sv rq)"
| "apply_action sv (SocketConnect sock now) = on_connection sv sock now"
| "apply_action sv (SocketEvent sock ev now) = fst (on_event sv sock ev now)"

fun run :: "server \<Rightarrow> action list \<Rightarrow> server" where
  "run sv [] = sv"
| "run sv (a # as) = run (apply_action sv a) as"

section \<open>The join handler, one database call at a time\<close>

text \<open>
  The join handler is an \<open>async\<close> function: it gives up control at every
  \<open>await\<close>, and the handler of another request may run in between. A control
  point names the database call the handler is about to make, with the local variables
  that are live there; a step runs the handler up to its next \<open>await\<close>.
\<close>

datatype join_pc =
    AtTopic
  | AtExistingEntry oid
  | AtActiveSession oid
  | AtWaitingUser oid
  | AtSessionSave oid waiting_entry
  | AtDeleteOne session waiting_entry
  | AtEntrySave oid
  | Responded join_response "emission list"

fun join_step :: "join_request \<Rightarrow> server \<Rightarrow> join_pc \<Rightarrow> server \<times> join_pc" where
  "join_step rq sv AtTopic =
     (case jr_topicId rq of
        Missing \<Rightarrow> (sv, Responded ValidationFailed [])
      | Malformed \<Rightarrow> (sv, Responded ValidationFailed [])
      | Oid topicId \<Rightarrow>
          (case topics sv topicId of
             None \<Rightarrow> (sv, Responded TopicNotFound [])
           | Some tp \<Rightarrow>
               if \<not> t_isActive tp then (sv, Responded TopicNotFound [])
               else (sv, AtExistingEntry topicId)))"
| "join_step rq sv (AtExistingEntry topicId) =
     (if find (existingEntry_query (jr_user rq) topicId) (waitingPool sv) \<noteq> None
      then (sv, Responded AlreadyInPool [])
      else (sv, AtActiveSession topicId))"
| "join_step rq sv (AtActiveSession topicId) =
     (if find (activeSession_query (jr_user rq)) (sessions sv) \<noteq> None
      then (sv, Responded InActiveSession [])
      else (sv, AtWaitingUser topicId))"
| "join_step rq sv (AtWaitingUser topicId) =
     (case find (waitingUser_query (jr_user rq) topicId) (waitingPool sv) of
        Some waitingUser \<Rightarrow>
          (case users sv (we_user waitingUser) of
             None \<Rightarrow> (sv, Responded ServerError [])
           | Some _ \<Rightarrow> (sv, AtSessionSave topicId waitingUser))
      | None \<Rightarrow> (sv, AtEntrySave topicId))"
| "join_step rq sv (AtSessionSave topicId waitingUser) =
     (case insert_session (new_session rq topicId waitingUser) (sessions sv) of
        None \<Rightarrow> (sv, Responded ServerError [])
      | Some ss \<Rightarrow> (sv\<lparr>sessions := ss\<rparr>, AtDeleteOne (new_session rq topicId waitingUser) waitingUser))"
| "join_step rq sv (AtDeleteOne s waitingUser) =
     (sv\<lparr>waitingPool := deleteOne (we_id waitingUser) (waitingPool sv)\<rparr>,
      Responded (MatchFound s waitingUser)
        (io_to (rooms sv) (we_socketId waitingUser) (EvMatchFound s (jr_user rq))))"
| "join_step rq sv (AtEntrySave topicId) =
     (case insert_entry (new_entry rq topicId) (waitingPool sv) of
        None \<Rightarrow> (sv, Responded ServerError [])
      | Some pool \<Rightarrow> (sv\<lparr>waitingPool := pool\<rparr>, Responded (AddedToPool (new_entry rq topicId)) []))"
| "join_step rq sv (Responded r em) = (sv, Responded r em)"

text \<open>
  Two join handlers in flight. The schedule says whose turn each step is
  (\<open>False\<close> the first request, \<open>True\<close> the second).
\<close>

fun interleave ::
  "join_request \<Rightarrow> join_request \<Rightarrow> bool list \<Rightarrow> server \<times> join_pc \<times> join_pc \<Rightarrow> server \<times> join_pc \<times> join_pc" where
  "interleave r1 r2 [] c = c"
| "interleave r1 r2 (b # bs) (sv, p1, p2) =
     (if b then (case join_step r2 sv p2 of (sv', p2') \<Rightarrow> interleave r1 r2 bs (sv', p1, p2'))
      else (case join_step r1 sv p1 of (sv', p1') \<Rightarrow> interleave r1 r2 bs (sv', p1', p2)))"

text \<open>A handler that runs alone takes at most six steps to respond.\<close>

fun steps :: "nat \<Rightarrow> join_request \<Rightarrow> server \<times> join_pc \<Rightarrow> server \<times> join_pc" where
  "steps 0 rq c = c"
| "steps (Suc n) rq (sv, pc) = steps n rq (join_step rq sv pc)"

definition join_alone :: "server \<Rightarrow> join_request \<Rightarrow> server \<times> join_pc" where
  "join_alone sv rq = steps 6 rq (sv, AtTopic)"

section \<open>The end and cancel handlers, one database call at a time\<close>

text \<open>
  Like the join handler, the end and the cancel handler give up control at every
  \<open>await\<close>: between the lookup with its checks and the save, in the end handler
  again around the \<open>$inc\<close> updates, and before the event is sent to the room as it
  is at that moment. A control point carries the handler's local variables: the session
  as it was loaded and the document being saved. The two updates under
  \<open>Promise.all\<close> are issued together and are two database calls; they are
  increments, so the order in which they arrive makes no difference, and user1's comes
  first here.
\<close>

datatype end_pc =
    EndAtFind
  | EndAtSave session session
  | EndAtIncUser1 session
  | EndAtIncUser2 session
  | EndAtIncTopic session
  | EndAtEmit session
  | EndReplied reply "emission list"

fun end_step :: "oid \<Rightarrow> raw_id \<Rightarrow> nat \<Rightarrow> server \<Rightarrow> end_pc \<Rightarrow> server \<times> end_pc" where
  "end_step userId sessionId now sv EndAtFind =
     (case end_lookup sv userId sessionId now of
        Inl r \<Rightarrow> (sv, EndReplied r [])
      | Inr (s, doc) \<Rightarrow> (sv, EndAtSave s doc))"
| "end_step userId sessionId now sv (EndAtSave s doc) =
     (case save_session s doc (sessions sv) of
        None \<Rightarrow> (sv, EndReplied InternalError [])
      | Some ss \<Rightarrow> (sv\<lparr>sessions := ss\<rparr>, EndAtIncUser1 (pre_save doc)))"
| "end_step userId sessionId now sv (EndAtIncUser1 doc) =
     (sv\<lparr>users := inc_sessionsCompleted (s_user1 doc) (users sv)\<rparr>, EndAtIncUser2 doc)"
| "end_step userId sessionId now sv (EndAtIncUser2 doc) =
     (sv\<lparr>users := inc_sessionsCompleted (s_user2 doc) (users sv)\<rparr>, EndAtIncTopic doc)"
| "end_step userId sessionId now sv (EndAtIncTopic doc) =
     (sv\<lparr>topics := inc_sessionsCount (s_topic doc) (topics sv)\<rparr>, EndAtEmit doc)"
| "end_step userId sessionId now sv (EndAtEmit doc) =
     (sv, EndReplied (SessionEndedOk doc) (io_to (rooms sv) (s_roomId doc) (EvSessionEnded (s_id doc) userId)))"
| "end_step userId sessionId now sv (EndReplied r em) = (sv, EndReplied r em)"

datatype cancel_pc =
    CancelAtFind
  | CancelAtSave session session
  | CancelAtEmit session
  | CancelReplied reply "emission list"

fun cancel_step :: "oid \<Rightarrow> session_ref \<Rightarrow> nat \<Rightarrow> server \<Rightarrow> cancel_pc \<Rightarrow> server \<times> cancel_pc" where
  "cancel_step userId sessionId now sv CancelAtFind =
     (if sessionId = NoRef then
        (sv\<lparr>waitingPool := deleteMany (\<lambda>e. we_user e = userId \<and> we_isActive e) (waitingPool sv)\<rparr>,
         CancelReplied RemovedFromAllPools [])
      else
        (case cancel_lookup sv userId sessionId now of
           Inl r \<Rightarrow> (sv, CancelReplied r [])
         | Inr (s, doc) \<Rightarrow> (sv, CancelAtSave s doc)))"
| "cancel_step userId sessionId now sv (CancelAtSave s doc) =
     (case save_session s doc (sessions sv) of
        None \<Rightarrow> (sv, CancelReplied InternalError [])
      | Some ss \<Rightarrow> (sv\<lparr>sessions := ss\<rparr>, CancelAtEmit (pre_save doc)))"
| "cancel_step userId sessionId now sv (CancelAtEmit doc) =
     (sv, CancelReplied SessionCancelledOk
            (io_to (rooms sv) (s_roomId doc) (EvSessionCancelled (s_id doc) userId)))"
| "cancel_step userId sessionId now sv (CancelReplied r em) = (sv, CancelReplied r em)"

text \<open>
  An end or a cancel call in flight: who calls, for which session, at what time, and
  where its handler stands. Two calls in flight are scheduled like two joins
  (\<open>False\<close> the first call, \<open>True\<close> the second).
\<close>

datatype call =
    EndCall oid raw_id nat end_pc
  | CancelCall oid session_ref nat cancel_pc

fun call_step :: "server \<Rightarrow> call \<Rightarrow> server \<times> call" where
  "call_step sv (EndCall userId sessionId now pc) =
     (case end_step userId sessionId now sv pc of (sv', pc') \<Rightarrow> (sv', EndCall userId sessionId now pc'))"
| "call_step sv (CancelCall userId sessionId now pc) =
     (case cancel_step userId sessionId now sv pc of (sv', pc') \<Rightarrow> (sv', CancelCall userId sessionId now pc'))"

fun interleave_calls :: "bool list \<Rightarrow> server \<times> call \<times> call \<Rightarrow> server \<times> call \<times> call" where
  "interleave_calls [] c = c"
| "interleave_calls (b # bs) (sv, c1, c2) =
     (if b then (case call_step sv c2 of (sv', c2') \<Rightarrow> interleave_calls bs (sv', c1, c2'))
      else (case call_step sv c1 of (sv', c1') \<Rightarrow> interleave_calls bs (sv', c1', c2)))"

text \<open>The answer of a call, once its handler has given it.\<close>

fun call_reply :: "call \<Rightarrow> reply option" where
  "call_reply (EndCall userId sessionId now (EndReplied r em)) = Some r"
| "call_reply (CancelCall userId sessionId now (CancelReplied r em)) = Some r"
| "call_reply _ = None"

text \<open>A handler that runs alone: the end handler answers within six steps, the cancel handler within three.\<close>

fun end_steps :: "nat \<Rightarrow> oid \<Rightarrow> raw_id \<Rightarrow> nat \<Rightarrow> server \<times> end_pc \<Rightarrow> server \<times> end_pc" where
  "end_steps 0 userId sessionId now c = c"
| "end_steps (Suc n) userId sessionId now (sv, pc) =
     end_steps n userId sessionId now (end_step userId sessionId now sv pc)"

fun cancel_steps :: "nat \<Rightarrow> oid \<Rightarrow> session_ref \<Rightarrow> nat \<Rightarrow> server \<times> cancel_pc \<Rightarrow> server \<times> cancel_pc" where
  "cancel_steps 0 userId sessionId now c = c"
| "cancel_steps (Suc n) userId sessionId now (sv, pc) =
     cancel_steps n userId sessionId now (cancel_step userId sessionId now sv pc)"

definition end_alone :: "server \<Rightarrow> oid \<Rightarrow> raw_id \<Rightarrow> nat \<Rightarrow> server \<times> end_pc" where
  "end_alone sv userId sessionId now = end_steps 6 userId sessionId now (sv, EndAtFind)"

definition cancel_alone :: "server \<Rightarrow> oid \<Rightarrow> session_ref \<Rightarrow> nat \<Rightarrow> server \<times> cancel_pc" where
  "cancel_alone sv userId sessionId now = cancel_steps 3 userId sessionId now (sv, CancelAtFind)"

section \<open>Observations used in the statements\<close>

text \<open>The two statuses the end and cancel handlers treat as already ended.\<close>

definition terminal :: "session \<Rightarrow> bool" where
  "terminal s \<longleftrightarrow> s_status s = Completed \<or> s_status s = Cancelled"

definition sessionsCompleted_of :: "server \<Rightarrow> oid \<Rightarrow> nat option" where
  "sessionsCompleted_of sv u = map_option u_sessionsCompleted (users sv u)"

definition sessionsCount_of :: "server \<Rightarrow> oid \<Rightarrow> nat option" where
  "sessionsCount_of sv t = map_option t_sessionsCount (topics sv t)"

fun is_ended_ok :: "reply \<Rightarrow> bool" where
  "is_ended_ok (SessionEndedOk s) = True"
| "is_ended_ok _ = False"

text \<open>How many end calls for session \<open>i\<close> are accepted along a run of the server.\<close>

fun accepted_ends :: "oid \<Rightarrow> server \<Rightarrow> action list \<Rightarrow> nat" where
  "accepted_ends i sv [] = 0"
| "accepted_ends i sv (HttpEnd u sid now # as) =
     (if sid = Oid i \<and> is_ended_ok (fst (snd (end_session sv u sid now))) then 1 else 0)
     + accepted_ends i (apply_action sv (HttpEnd u sid now)) as"
| "accepted_ends i sv (a # as) = accepted_ends i (apply_action sv a) as"

text \<open>The session id of a cancel request selects the id \<open>i\<close>.\<close>

fun selects :: "session_ref \<Rightarrow> oid \<Rightarrow> bool" where
  "selects (RefOid j) i = (j = i)"
| "selects (RefQuery p) i = p i"
| "selects NoRef i = False"
| "selects BadRef i = False"

text \<open>
  The action is an end call for session \<open>i\<close>, or a cancel call whose session id selects
  \<open>i\<close>, by a participant of \<open>S\<close>.
\<close>

fun ends_or_cancels :: "oid \<Rightarrow> session \<Rightarrow> action \<Rightarrow> bool" where
  "ends_or_cancels i S (HttpEnd u sid now) = (sid = Oid i \<and> isParticipant S u)"
| "ends_or_cancels i S (HttpCancel u sid now) = (selects sid i \<and> isParticipant S u)"
| "ends_or_cancels i S _ = False"

text \<open>
  The paths no handler assigns are the same in both documents, as they are in a loaded
  session and the handler's modified document of it.
\<close>

definition same_fixed :: "session \<Rightarrow> session \<Rightarrow> bool" where
  "same_fixed s doc \<longleftrightarrow>
     s_id doc = s_id s \<and> s_topic doc = s_topic s \<and> s_user1 doc = s_user1 s \<and>
     s_user2 doc = s_user2 s \<and> s_roomId doc = s_roomId s \<and> s_startTime doc = s_startTime s"

text \<open>The first stored session with the id of \<open>doc\<close> replaced by \<open>doc\<close>.\<close>

fun put_session :: "session \<Rightarrow> session list \<Rightarrow> session list" where
  "put_session doc [] = []"
| "put_session doc (x # xs) = (if s_id x = s_id doc then doc # xs else x # put_session doc xs)"

text \<open>
  A join request gets past validation, the topic lookup and the two conflict checks of
  the handler, for topic \<open>t\<close>.
\<close>

definition reaches_matcher :: "server \<Rightarrow> join_request \<Rightarrow> oid \<Rightarrow> bool" where
  "reaches_matcher sv rq t \<longleftrightarrow>
     jr_topicId rq = Oid t \<and>
     (case topics sv t of None \<Rightarrow> False | Some tp \<Rightarrow> t_isActive tp) \<and>
     find (existingEntry_query (jr_user rq) t) (waitingPool sv) = None \<and>
     find (activeSession_query (jr_user rq)) (sessions sv) = None"

text \<open>The ids generated for the request's new session are not in use.\<close>

definition fresh_session_ids :: "server \<Rightarrow> join_request \<Rightarrow> bool" where
  "fresh_session_ids sv rq \<longleftrightarrow>
     (\<forall>x \<in> set (sessions sv). s_id x \<noteq> jr_newId rq \<and> s_roomId x \<noteq> jr_uuid rq)"

definition is_error :: "event \<Rightarrow> bool" where
  "is_error ev \<longleftrightarrow> (case ev of EvError m \<Rightarrow> True | _ \<Rightarrow> False)"

text \<open>Two invariants of the collections.\<close>

definition distinct_participants :: "server \<Rightarrow> bool" where
  "distinct_participants sv \<longleftrightarrow> (\<forall>s \<in> set (sessions sv). s_user1 s \<noteq> s_user2 s)"

definition unique_entry_ids :: "server \<Rightarrow> bool" where
  "unique_entry_ids sv \<longleftrightarrow> distinct (map we_id (waitingPool sv))"

definition same_participants :: "session \<Rightarrow> session \<Rightarrow> bool" where
  "same_participants s s' \<longleftrightarrow> s_user1 s' = s_user1 s \<and> s_user2 s' = s_user2 s"

section \<open>Example states\<close>

definition ex_topics :: "oid \<rightharpoonup> topic" where
  "ex_topics = [7 \<mapsto> \<lparr>t_name = ''css'', t_isActive = True, t_sessionsCount = 0\<rparr>,
                8 \<mapsto> \<lparr>t_name = ''cobol'', t_isActive = False, t_sessionsCount = 0\<rparr>]"

definition ex_users :: "oid \<rightharpoonup> user" where
  "ex_users = [1 \<mapsto> \<lparr>u_username = ''ann'', u_sessionsCompleted = 0, u_lastSeen = 0\<rparr>,
               2 \<mapsto> \<lparr>u_username = ''bob'', u_sessionsCompleted = 0, u_lastSeen = 0\<rparr>,
               3 \<mapsto> \<lparr>u_username = ''cy'', u_sessionsCompleted = 0, u_lastSeen = 0\<rparr>,
               4 \<mapsto> \<lparr>u_username = ''dee'', u_sessionsCompleted = 0, u_lastSeen = 0\<rparr>]"

text \<open>Nobody waits, nobody is connected, no session exists.\<close>

definition sv_idle :: server where
  "sv_idle = \<lparr>topics = ex_topics, users = ex_users, waitingPool = [], sessions = [],
              activeConnections = Map.empty, rooms = (\<lambda>_. [])\<rparr>"

definition entry_ann :: waiting_entry where
  "entry_ann = \<lparr>we_id = 100, we_user = 1, we_topic = 7, we_joinedAt = 5,
                we_socketId = ''temp-5'', we_isActive = True\<rparr>"

definition entry_bob :: waiting_entry where
  "entry_bob = \<lparr>we_id = 101, we_user = 2, we_topic = 7, we_joinedAt = 3,
                we_socketId = ''sock-b'', we_isActive = True\<rparr>"

text \<open>Ann waits for topic 7.\<close>

definition sv_ann_waiting :: server where
  "sv_ann_waiting = sv_idle\<lparr>waitingPool := [entry_ann]\<rparr>"

text \<open>
  Ann and Bob both wait for topic 7; Ann's entry comes first in the collection, Bob's
  carries the earlier \<open>joinedAt\<close>.
\<close>

definition sv_two_waiting :: server where
  "sv_two_waiting = sv_idle\<lparr>waitingPool := [entry_ann, entry_bob]\<rparr>"

definition session_50 :: session where
  "session_50 = \<lparr>s_id = 50, s_topic = 7, s_user1 = 1, s_user2 = 2, s_roomId = ''room-50'',
                 s_status = Active, s_startTime = 10, s_endTime = None, s_duration = 0,
                 s_user1Rating = None, s_user1Comment = None,
                 s_user2Rating = None, s_user2Comment = None\<rparr>"

text \<open>
  Ann and Bob are in the active session 50; Bob's socket has joined its room, and Bob
  still has a waiting entry for topic 7 that carries that socket's id.
\<close>

definition sv_in_session :: server where
  "sv_in_session = sv_idle\<lparr>sessions := [session_50], waitingPool := [entry_bob],
      rooms := (\<lambda>_. [])(''room-50'' := [''sock-a'', ''sock-b''])\<rparr>"

definition sock_ann :: socket where
  "sock_ann = \<lparr>sock_id = ''sock-a'', sock_userId = 1, sock_username = ''ann''\<rparr>"

definition sock_ann_new :: socket where
  "sock_ann_new = \<lparr>sock_id = ''sock-a2'', sock_userId = 1, sock_username = ''ann''\<rparr>"

definition sock_cy :: socket where
  "sock_cy = \<lparr>sock_id = ''sock-c'', sock_userId = 3, sock_username = ''cy''\<rparr>"

definition join_ann :: join_request where
  "join_ann = \<lparr>jr_user = 1, jr_topicId = Oid 7, jr_socketId = None, jr_now = 5,
               jr_newId = 100, jr_uuid = ''uuid-a''\<rparr>"

definition join_bob :: join_request where
  "join_bob = \<lparr>jr_user = 2, jr_topicId = Oid 7, jr_socketId = Some ''sock-b'', jr_now = 6,
               jr_newId = 101, jr_uuid = ''uuid-b''\<rparr>"

definition join_cy :: join_request where
  "join_cy = \<lparr>jr_user = 3, jr_topicId = Oid 7, jr_socketId = Some ''sock-c'', jr_now = 8,
              jr_newId = 102, jr_uuid = ''uuid-c''\<rparr>"

definition join_dee :: join_request where
  "join_dee = \<lparr>jr_user = 4, jr_topicId = Oid 7, jr_socketId = Some ''sock-d'', jr_now = 9,
               jr_newId = 103, jr_uuid = ''uuid-d''\<rparr>"

definition session_60 :: session where
  "session_60 = \<lparr>s_id = 60, s_topic = 7, s_user1 = 3, s_user2 = 4, s_roomId = ''room-60'',
                 s_status = Active, s_startTime = 2, s_endTime = None, s_duration = 0,
                 s_user1Rating = None, s_user1Comment = None,
                 s_user2Rating = None, s_user2Comment = None\<rparr>"

text \<open>Cy and Dee are in the active session 60; nobody waits.\<close>

definition sv_cy_busy :: server where
  "sv_cy_busy = sv_idle\<lparr>sessions := [session_60]\<rparr>"

definition sock_bob :: socket where
  "sock_bob = \<lparr>sock_id = ''sock-b'', sock_userId = 2, sock_username = ''bob''\<rparr>"

text \<open>Bob and Ann both wait for topic 7, stored in the order of their \<open>joinedAt\<close>.\<close>

definition sv_two_sorted :: server where
  "sv_two_sorted = sv_idle\<lparr>waitingPool := [entry_bob, entry_ann]\<rparr>"

definition join_ann_cobol :: join_request where
  "join_ann_cobol = \<lparr>jr_user = 1, jr_topicId = Oid 8, jr_socketId = None, jr_now = 12,
                     jr_newId = 104, jr_uuid = ''uuid-e''\<rparr>"

text \<open>
  Two schedules for two join handlers: in the first the handlers alternate after their
  lookups, in the second each runs to its response before the other starts.
\<close>

definition racing_schedule :: "bool list" where
  "racing_schedule = [False, False, False, False, True, True, True, True,
                      False, False, True, True]"

definition one_by_one :: "bool list" where
  "one_by_one = replicate 6 False @ replicate 6 True"

text \<open>
  Ann's end call and Bob's cancel call for session 50, both just received, and a schedule
  on which Bob's lookup runs between Ann's lookup and Ann's save: Ann's lookup, Bob's
  lookup, Ann's save, Bob's save, then the rest of Ann's handler and the rest of Bob's.
\<close>

definition end_and_cancel :: "server \<times> call \<times> call" where
  "end_and_cancel =
     (sv_in_session, EndCall 1 (Oid 50) 20 EndAtFind, CancelCall 2 (RefOid 50) 21 CancelAtFind)"

definition cancel_overtaken :: "bool list" where
  "cancel_overtaken = [False, True, False, True, False, False, False, False, True]"

text \<open>
  Ann's and Bob's end calls for session 50, both just received, and a schedule on which
  Bob's lookup runs between Ann's lookup and Ann's save: Ann's lookup, Bob's lookup, the
  rest of Ann's handler, then the rest of Bob's.
\<close>

definition two_ends :: "server \<times> call \<times> call" where
  "two_ends = (sv_in_session, EndCall 1 (Oid 50) 20 EndAtFind, EndCall 2 (Oid 50) 21 EndAtFind)"

definition end_overtaken :: "bool list" where
  "end_overtaken = [False, True, False, False, False, False, False, True, True, True, True, True]"

text \<open>
  Session 50 is active. Ann connects from two browser tabs and Bob from one, and each
  socket joins the session's room.
\<close>

definition sv_two_tabs :: server where
  "sv_two_tabs =
     run (sv_idle\<lparr>sessions := [session_50]\<rparr>)
       [SocketConnect sock_ann 1, SocketConnect sock_ann_new 2, SocketConnect sock_bob 3,
        SocketEvent sock_ann (JoinSession (Oid 50) ''room-50'') 4,
        SocketEvent sock_ann_new (JoinSession (Oid 50) ''room-50'') 5,
        SocketEvent sock_bob (JoinSession (Oid 50) ''room-50'') 6]"

section \<open>Facts about the collections\<close>

lemma find_append_last:
  "find P (xs @ [y]) = (case find P xs of Some x \<Rightarrow> Some x | None \<Rightarrow> if P y then Some y else None)"
  by (induction xs) auto

lemma delete_first_append_last:
  "\<forall>x \<in> set xs. \<not> q x \<Longrightarrow> q y \<Longrightarrow> delete_first q (xs @ [y]) = xs"
  by (induction xs) auto

section \<open>Matching\<close>

lemma join_AddedToPool_D:
  assumes "join sv rq = (sv1, AddedToPool e, em)"
  shows "\<exists>t. jr_topicId rq = Oid t \<and> reaches_matcher sv rq t
      \<and> find (waitingUser_query (jr_user rq) t) (waitingPool sv) = None
      \<and> insert_entry (new_entry rq t) (waitingPool sv) = Some (waitingPool sv @ [e])
      \<and> e = new_entry rq t \<and> sv1 = sv\<lparr>waitingPool := waitingPool sv @ [e]\<rparr> \<and> em = []"
  using assms
  by (auto simp: join_def reaches_matcher_def insert_entry_def
      split: raw_id.splits option.splits if_splits)

text \<open>
  C1, as the handler has it. Let A and B be distinct identities and T a topic. If A's join
  for T is answered with "added to the waiting pool" and B then joins T, where B is in no
  waiting or active session, A's user document exists and the ids generated for the new
  session are unused, then B's join is answered with a match: the session is new, it is
  appended to the sessions, its participants are A (\<open>user1\<close>) and B (\<open>user2\<close>), its
  status is active, the matched entry is the one A's join created, and afterwards the
  pool holds no entry of A for T.
\<close>

theorem join_then_join_matches:
  assumes A: "jr_user rqA = A" "jr_topicId rqA = Oid T"
      and B: "jr_user rqB = B" "jr_topicId rqB = Oid T"
      and ne: "A \<noteq> B"
      and enq: "join sv rqA = (sv1, AddedToPool eA, emA)"
      and free: "find (activeSession_query B) (sessions sv) = None"
      and reg: "users sv A \<noteq> None"
      and fresh: "fresh_session_ids sv rqB"
  shows "\<exists>sv2 S em. join sv1 rqB = (sv2, MatchFound S eA, em)
      \<and> s_user1 S = A \<and> s_user2 S = B \<and> s_topic S = T \<and> s_status S = Active
      \<and> S \<notin> set (sessions sv1) \<and> sessions sv2 = sessions sv1 @ [S]
      \<and> eA \<in> set (waitingPool sv1) \<and> we_user eA = A \<and> we_topic eA = T
      \<and> (\<forall>e \<in> set (waitingPool sv2). \<not> (we_user e = A \<and> we_topic e = T))"
proof -
  from join_AddedToPool_D [OF enq] A
  have rm: "reaches_matcher sv rqA T"
    and nowait: "find (waitingUser_query A T) (waitingPool sv) = None"
    and ins: "insert_entry (new_entry rqA T) (waitingPool sv) = Some (waitingPool sv @ [eA])"
    and eA: "eA = new_entry rqA T"
    and sv1: "sv1 = sv\<lparr>waitingPool := waitingPool sv @ [eA]\<rparr>"
    by auto
  have eA_fields: "we_user eA = A" "we_topic eA = T" "we_isActive eA"
    using eA A by (simp_all add: new_entry_def)
  from rm A have noexist: "find (existingEntry_query A T) (waitingPool sv) = None"
    and topic: "case topics sv T of None \<Rightarrow> False | Some tp \<Rightarrow> t_isActive tp"
    by (simp_all add: reaches_matcher_def)
  have none_active: "\<not> (we_topic x = T \<and> we_isActive x)" if "x \<in> set (waitingPool sv)" for x
    using that nowait noexist
    by (auto simp: find_None_iff waitingUser_query_def existingEntry_query_def)
  from ins have uniq: "\<forall>x \<in> set (waitingPool sv). we_id x \<noteq> we_id eA
      \<and> \<not> (we_user x = we_user eA \<and> we_topic x = we_topic eA)"
    by (auto simp: insert_entry_def split: if_splits)
  have ex_B: "find (existingEntry_query B T) (waitingPool sv1) = None"
    using none_active eA_fields ne
    by (auto simp: sv1 find_None_iff existingEntry_query_def)
  have wu_B: "find (waitingUser_query B T) (waitingPool sv1) = Some eA"
  proof -
    have "find (waitingUser_query B T) (waitingPool sv) = None"
      using none_active by (auto simp: find_None_iff waitingUser_query_def)
    then show ?thesis
      using eA_fields ne by (simp add: sv1 find_append_last waitingUser_query_def)
  qed
  have del: "deleteOne (we_id eA) (waitingPool sv1) = waitingPool sv"
    using uniq by (simp add: sv1 deleteOne_def delete_first_append_last)
  let ?S = "new_session rqB T eA"
  have ins_s: "insert_session ?S (sessions sv) = Some (sessions sv @ [pre_save ?S])"
    using fresh by (auto simp: fresh_session_ids_def insert_session_def new_session_def)
  have ps: "pre_save ?S = ?S" by (simp add: pre_save_def new_session_def)
  have notin: "?S \<notin> set (sessions sv)"
    using fresh by (auto simp: fresh_session_ids_def new_session_def)
  obtain tp where tp: "topics sv T = Some tp" "t_isActive tp"
    using topic by (auto split: option.splits)
  obtain ua where ua: "users sv A = Some ua" using reg by auto
  have "join sv1 rqB =
      (sv1\<lparr>sessions := sessions sv @ [?S], waitingPool := waitingPool sv\<rparr>, MatchFound ?S eA,
       io_to (rooms sv1) (we_socketId eA) (EvMatchFound ?S B))"
    using ex_B wu_B del ins_s ps tp ua free B eA_fields
    by (simp add: join_def sv1)
  moreover have "\<forall>e \<in> set (waitingPool sv). \<not> (we_user e = A \<and> we_topic e = T)"
    using uniq eA_fields by auto
  ultimately show ?thesis
    using eA_fields notin B by (simp add: sv1 new_session_def)
qed

lemma join_ann_idle: "join sv_idle join_ann = (sv_ann_waiting, AddedToPool entry_ann, [])"
  by (simp add: join_def sv_idle_def sv_ann_waiting_def join_ann_def entry_ann_def ex_topics_def
      insert_entry_def new_entry_def nat_str.simps
      existingEntry_query_def activeSession_query_def waitingUser_query_def)

theorem join_then_join_matches_witness:
  "join sv_idle join_ann = (sv_ann_waiting, AddedToPool entry_ann, [])
   \<and> (\<exists>sv2 S em. join sv_ann_waiting join_bob = (sv2, MatchFound S entry_ann, em)
        \<and> s_user1 S = 1 \<and> s_user2 S = 2 \<and> s_status S = Active
        \<and> (\<forall>e \<in> set (waitingPool sv2). \<not> (we_user e = 1 \<and> we_topic e = 7)))"
proof -
  have h1: "jr_user join_ann = 1" "jr_topicId join_ann = Oid 7"
    and h2: "jr_user join_bob = 2" "jr_topicId join_bob = Oid 7"
    by (simp_all add: join_ann_def join_bob_def)
  have h3: "(1::nat) \<noteq> 2" by simp
  have h4: "find (activeSession_query 2) (sessions sv_idle) = None"
    by (simp add: sv_idle_def)
  have h5: "users sv_idle 1 \<noteq> None" by (simp add: sv_idle_def ex_users_def)
  have h6: "fresh_session_ids sv_idle join_bob"
    by (simp add: fresh_session_ids_def sv_idle_def)
  from join_then_join_matches [OF h1 h2 h3 join_ann_idle h4 h5 h6] join_ann_idle
  show ?thesis by blast
qed

text \<open>
  Cy is in the active session 60. Ann's join for topic 7 is answered with "added to the
  waiting pool"; Cy's join for the same topic right after it is not answered with a
  match but refused, because of Cy's session.
\<close>

theorem join_then_join_counterexample:
  "snd (join sv_cy_busy join_ann) = (AddedToPool entry_ann, [])
   \<and> jr_user join_ann \<noteq> jr_user join_cy
   \<and> jr_topicId join_ann = jr_topicId join_cy
   \<and> snd (join (fst (join sv_cy_busy join_ann)) join_cy) = (InActiveSession, [])"
  by (simp add: join_def sv_cy_busy_def sv_idle_def join_ann_def join_cy_def entry_ann_def
      ex_topics_def session_60_def insert_entry_def new_entry_def nat_str.simps
      existingEntry_query_def activeSession_query_def waitingUser_query_def)

section \<open>Sessions are kept, and what changes their status\<close>

lemma findById_id: "findById i ss = Some s \<Longrightarrow> s_id s = i"
  unfolding findById_def by (induction ss) (auto split: if_splits)

lemma findById_mem: "findById i ss = Some s \<Longrightarrow> s \<in> set ss"
  unfolding findById_def by (induction ss) (auto split: if_splits)

lemma pre_save_id [simp]: "s_id (pre_save s) = s_id s"
  by (simp add: pre_save_def split: option.splits)

lemma pre_save_status [simp]: "s_status (pre_save s) = s_status s"
  by (simp add: pre_save_def split: option.splits)

lemma pre_save_endTime [simp]: "s_endTime (pre_save s) = s_endTime s"
  by (simp add: pre_save_def split: option.splits)

lemma pre_save_users [simp]:
  "s_user1 (pre_save s) = s_user1 s" "s_user2 (pre_save s) = s_user2 s"
  "s_topic (pre_save s) = s_topic s" "s_roomId (pre_save s) = s_roomId s"
  by (simp_all add: pre_save_def split: option.splits)

lemma pre_save_startTime [simp]: "s_startTime (pre_save s) = s_startTime s"
  by (simp add: pre_save_def split: option.splits)

lemma same_fixed_pre_save [simp]: "same_fixed s (pre_save doc) = same_fixed s doc"
  by (simp add: same_fixed_def)

lemma save_paths_users [simp]:
  "s_user1 (save_paths loaded doc x) = s_user1 x" "s_user2 (save_paths loaded doc x) = s_user2 x"
  "s_id (save_paths loaded doc x) = s_id x"
  by (simp_all add: save_paths_def)

text \<open>Written over the document it was loaded from, a save stores the handler's document.\<close>

lemma save_paths_loaded: "same_fixed s doc \<Longrightarrow> save_paths s doc s = doc"
  by (cases s, cases doc) (simp add: save_paths_def same_fixed_def)

lemma update_session_put:
  "findById i ss = Some s \<Longrightarrow> f s = doc \<Longrightarrow> s_id doc = i \<Longrightarrow>
   update_session i f ss = Some (put_session doc ss)"
  unfolding findById_def by (induction ss) auto

lemma save_session_alone:
  assumes "findById i ss = Some s" "same_fixed s doc"
  shows "save_session s doc ss = Some (put_session (pre_save doc) ss)"
proof -
  from assms(2) have "save_paths s (pre_save doc) s = pre_save doc"
    by (simp add: save_paths_loaded)
  moreover from assms(2) findById_id [OF assms(1)] have "s_id (pre_save doc) = s_id s" "s_id s = i"
    by (simp_all add: same_fixed_def)
  ultimately show ?thesis
    using assms(1) unfolding save_session_def by (simp add: update_session_put)
qed

lemma findById_put_session:
  "findById i (put_session doc ss) =
     (if i = s_id doc then (case findById i ss of None \<Rightarrow> None | Some _ \<Rightarrow> Some doc)
      else findById i ss)"
  unfolding findById_def by (induction ss) auto

lemma update_session_participants:
  assumes "update_session i f ss = Some ss'"
      and "\<And>x. s_user1 (f x) = s_user1 x \<and> s_user2 (f x) = s_user2 x"
      and "\<forall>x \<in> set ss. s_user1 x \<noteq> s_user2 x"
  shows "\<forall>x \<in> set ss'. s_user1 x \<noteq> s_user2 x"
  using assms(1,3)
proof (induction ss arbitrary: ss')
  case Nil
  then show ?case by simp
next
  case (Cons x xs)
  show ?case
  proof (cases "s_id x = i")
    case True
    with Cons.prems assms(2) show ?thesis by auto
  next
    case False
    with Cons.prems obtain ys where ys: "update_session i f xs = Some ys" "ss' = x # ys"
      by auto
    with Cons.IH [OF ys(1)] Cons.prems(2) show ?thesis by simp
  qed
qed

lemma save_session_participants:
  assumes "save_session loaded doc ss = Some ss'" "\<forall>x \<in> set ss. s_user1 x \<noteq> s_user2 x"
  shows "\<forall>x \<in> set ss'. s_user1 x \<noteq> s_user2 x"
  using update_session_participants [OF assms(1) [unfolded save_session_def] _ assms(2)]
  by simp

text \<open>The session a cancel request selects is the one \<open>findById\<close> returns for its id.\<close>

lemma find_ref_findById:
  "find_ref ref ss = Some s \<Longrightarrow> findById (s_id s) ss = Some s \<and> selects ref (s_id s)"
proof (cases ref)
  case (RefOid j)
  assume "find_ref ref ss = Some s"
  with RefOid findById_id [of j ss s] show ?thesis by simp
next
  case (RefQuery p)
  assume "find_ref ref ss = Some s"
  with RefQuery have "find (\<lambda>x. p (s_id x)) ss = Some s" by simp
  then have "findById (s_id s) ss = Some s \<and> p (s_id s)"
    unfolding findById_def by (induction ss) (auto split: if_splits)
  with RefQuery show ?thesis by simp
qed simp_all

text \<open>
  What the end and the cancel handler do when they run alone, by the outcome of the
  lookup.
\<close>

lemma end_lookup_found:
  "findById i (sessions sv) = Some s \<Longrightarrow>
   end_lookup sv u (Oid i) now =
     (if \<not> isParticipant s u then Inl AccessDenied
      else if terminal s then Inl AlreadyEnded
      else Inr (s, s\<lparr>s_status := Completed, s_endTime := Some now\<rparr>))"
  by (simp add: end_lookup_def terminal_def)

lemma end_lookup_Inr:
  "end_lookup sv u sid now = Inr (s, doc) \<Longrightarrow>
   sid = Oid (s_id s) \<and> findById (s_id s) (sessions sv) = Some s \<and> isParticipant s u
   \<and> \<not> terminal s \<and> doc = s\<lparr>s_status := Completed, s_endTime := Some now\<rparr>"
  by (auto simp: end_lookup_def terminal_def dest: findById_id
      split: raw_id.splits option.splits if_splits)

lemma cancel_lookup_found:
  "findById i (sessions sv) = Some s \<Longrightarrow>
   cancel_lookup sv u (RefOid i) now =
     (if \<not> isParticipant s u then Inl AccessDenied
      else if terminal s then Inl AlreadyEnded
      else Inr (s, s\<lparr>s_status := Cancelled, s_endTime := Some now\<rparr>))"
  by (simp add: cancel_lookup_def terminal_def)

lemma cancel_lookup_Inr:
  "cancel_lookup sv u ref now = Inr (s, doc) \<Longrightarrow>
   selects ref (s_id s) \<and> findById (s_id s) (sessions sv) = Some s \<and> isParticipant s u
   \<and> \<not> terminal s \<and> doc = s\<lparr>s_status := Cancelled, s_endTime := Some now\<rparr>"
  by (auto simp: cancel_lookup_def terminal_def dest: find_ref_findById
      split: option.splits if_splits)

lemma end_session_refused:
  "end_lookup sv u sid now = Inl r \<Longrightarrow> end_session sv u sid now = (sv, r, [])"
  by (simp add: end_session_def)

lemma end_session_saves:
  assumes "end_lookup sv u sid now = Inr (s, doc)"
  shows "end_session sv u sid now =
     (sv\<lparr>sessions := put_session (pre_save doc) (sessions sv),
         users := inc_sessionsCompleted (s_user2 s) (inc_sessionsCompleted (s_user1 s) (users sv)),
         topics := inc_sessionsCount (s_topic s) (topics sv)\<rparr>,
      SessionEndedOk (pre_save doc),
      io_to (rooms sv) (s_roomId s) (EvSessionEnded (s_id s) u))"
proof -
  from end_lookup_Inr [OF assms]
  have f: "findById (s_id s) (sessions sv) = Some s"
    and d: "doc = s\<lparr>s_status := Completed, s_endTime := Some now\<rparr>" by simp_all
  from d have "same_fixed s doc" by (simp add: same_fixed_def)
  from save_session_alone [OF f this] assms d show ?thesis
    by (simp add: end_session_def)
qed

lemma cancel_refused:
  "ref \<noteq> NoRef \<Longrightarrow> cancel_lookup sv u ref now = Inl r \<Longrightarrow> cancel sv u ref now = (sv, r, [])"
  by (simp add: cancel_def)

lemma cancel_saves:
  assumes "ref \<noteq> NoRef" "cancel_lookup sv u ref now = Inr (s, doc)"
  shows "cancel sv u ref now =
     (sv\<lparr>sessions := put_session (pre_save doc) (sessions sv)\<rparr>, SessionCancelledOk,
      io_to (rooms sv) (s_roomId s) (EvSessionCancelled (s_id s) u))"
proof -
  from cancel_lookup_Inr [OF assms(2)]
  have f: "findById (s_id s) (sessions sv) = Some s"
    and d: "doc = s\<lparr>s_status := Cancelled, s_endTime := Some now\<rparr>" by simp_all
  from d have "same_fixed s doc" by (simp add: same_fixed_def)
  from save_session_alone [OF f this] assms d show ?thesis
    by (simp add: cancel_def)
qed

text \<open>Run alone, the steps of a handler give what the handler gives as a whole.\<close>

lemma end_alone_eq:
  "end_alone sv u sid now = (case end_session sv u sid now of (sv', r, em) \<Rightarrow> (sv', EndReplied r em))"
  by (simp add: end_alone_def end_session_def numeral_nat split: sum.splits option.splits prod.splits)

lemma cancel_alone_eq:
  "cancel_alone sv u ref now = (case cancel sv u ref now of (sv', r, em) \<Rightarrow> (sv', CancelReplied r em))"
  by (simp add: cancel_alone_def cancel_def numeral_nat split: sum.splits option.splits prod.splits)

lemma findById_append:
  "findById i (ss @ [x]) =
     (case findById i ss of Some s \<Rightarrow> Some s | None \<Rightarrow> if s_id x = i then Some x else None)"
  unfolding findById_def by (induction ss) auto

lemma findById_insert_session:
  "insert_session x ss = Some ss' \<Longrightarrow> findById i ss = Some s \<Longrightarrow> findById i ss' = Some s"
  by (auto simp: insert_session_def findById_append split: if_splits)

lemma join_sessions:
  "findById i (sessions sv) = Some s \<Longrightarrow> findById i (sessions (fst (join sv rq))) = Some s"
  by (auto simp: join_def findById_insert_session split: raw_id.splits option.splits)

lemma leave_sessions: "sessions (fst (leave sv u t)) = sessions sv"
  by (simp add: leave_def)

lemma on_event_sessions: "sessions (fst (on_event sv sock ev now)) = sessions sv"
  by (cases ev) (auto split: raw_id.splits option.splits)

lemma on_connection_sessions: "sessions (on_connection sv sock now) = sessions sv"
  by (simp add: on_connection_def)

text \<open>
  A session that is found is still found, with its participants, after the save of a
  document that was loaded from the same collection.
\<close>

lemma put_session_kept:
  assumes "findById i ss = Some s" "findById j ss = Some x" "same_fixed x doc"
  shows "\<exists>s'. findById i (put_session (pre_save doc) ss) = Some s'
      \<and> s_user1 s' = s_user1 s \<and> s_user2 s' = s_user2 s
      \<and> (s' = s \<or> (i = j \<and> x = s \<and> s' = pre_save doc))"
proof -
  from assms(3) findById_id [OF assms(2)] have id: "s_id (pre_save doc) = j"
    by (simp add: same_fixed_def)
  show ?thesis
  proof (cases "i = j")
    case True
    with assms(1,2) have "x = s" by simp
    with True assms id show ?thesis
      by (simp add: findById_put_session same_fixed_def)
  next
    case False
    with assms(1) id show ?thesis by (simp add: findById_put_session)
  qed
qed

lemma feedback_doc_Inr:
  "feedback_doc rq s = Inr (loaded, doc) \<Longrightarrow>
   loaded = s \<and> same_fixed s doc \<and> s_status doc = s_status s"
  by (auto simp: feedback_doc_def same_fixed_def split: if_splits)

lemma feedback_sessions:
  assumes "findById i (sessions sv) = Some s"
  shows "\<exists>s'. findById i (sessions (fst (feedback sv rq))) = Some s' \<and> s_status s' = s_status s
      \<and> s_user1 s' = s_user1 s \<and> s_user2 s' = s_user2 s"
proof (cases "\<exists>j x doc. fb_sessionId rq = Oid j \<and> findById j (sessions sv) = Some x
    \<and> feedback_doc rq x = Inr (x, doc)
    \<and> fst (feedback sv rq) = sv\<lparr>sessions := put_session (pre_save doc) (sessions sv)\<rparr>")
  case True
  then obtain j x doc where x: "findById j (sessions sv) = Some x"
    and d: "feedback_doc rq x = Inr (x, doc)"
    and f: "fst (feedback sv rq) = sv\<lparr>sessions := put_session (pre_save doc) (sessions sv)\<rparr>"
    by blast
  from feedback_doc_Inr [OF d] have fx: "same_fixed x doc" and st: "s_status doc = s_status x"
    by simp_all
  from put_session_kept [OF assms x fx] st f show ?thesis by auto
next
  case False
  have "fst (feedback sv rq) = sv"
  proof (cases "fb_sessionId rq")
    case (Oid j)
    show ?thesis
    proof (cases "findById j (sessions sv)")
      case None
      with Oid show ?thesis by (simp add: feedback_def)
    next
      case (Some x)
      show ?thesis
      proof (cases "feedback_doc rq x")
        case (Inl r)
        with Oid Some show ?thesis by (simp add: feedback_def)
      next
        case (Inr p)
        then obtain loaded doc where p: "feedback_doc rq x = Inr (loaded, doc)" by (cases p) simp
        from feedback_doc_Inr [OF p] have l: "loaded = x" and fx: "same_fixed x doc" by simp_all
        from save_session_alone [OF Some fx] Oid Some p l False show ?thesis
          by (auto simp: feedback_def)
      qed
    qed
  qed (simp_all add: feedback_def)
  with assms show ?thesis by simp
qed

lemma end_sessions:
  assumes "findById i (sessions sv) = Some s"
  shows "\<exists>s'. findById i (sessions (fst (end_session sv u sid now))) = Some s'
      \<and> s_user1 s' = s_user1 s \<and> s_user2 s' = s_user2 s
      \<and> (s_status s' = s_status s \<or>
          (\<not> terminal s \<and> sid = Oid i \<and> isParticipant s u \<and> s_status s' = Completed))"
proof (cases "end_lookup sv u sid now")
  case (Inl r)
  from end_session_refused [OF this] assms show ?thesis by simp
next
  case (Inr p)
  then obtain x doc where p: "end_lookup sv u sid now = Inr (x, doc)" by (cases p) simp
  from end_lookup_Inr [OF p]
  have sid: "sid = Oid (s_id x)" and x: "findById (s_id x) (sessions sv) = Some x"
    and part: "isParticipant x u" and live: "\<not> terminal x"
    and d: "doc = x\<lparr>s_status := Completed, s_endTime := Some now\<rparr>" by simp_all
  from d have fx: "same_fixed x doc" by (simp add: same_fixed_def)
  from put_session_kept [OF assms x fx] end_session_saves [OF p] sid part live d
  show ?thesis by auto
qed

lemma cancel_sessions:
  assumes "findById i (sessions sv) = Some s"
  shows "\<exists>s'. findById i (sessions (fst (cancel sv u ref now))) = Some s'
      \<and> s_user1 s' = s_user1 s \<and> s_user2 s' = s_user2 s
      \<and> (s_status s' = s_status s \<or>
          (\<not> terminal s \<and> selects ref i \<and> isParticipant s u \<and> s_status s' = Cancelled))"
proof (cases "ref = NoRef")
  case True
  with assms show ?thesis by (simp add: cancel_def)
next
  case False
  show ?thesis
  proof (cases "cancel_lookup sv u ref now")
    case (Inl r)
    from cancel_refused [OF False this] assms show ?thesis by simp
  next
    case (Inr p)
    then obtain x doc where p: "cancel_lookup sv u ref now = Inr (x, doc)" by (cases p) simp
    from cancel_lookup_Inr [OF p]
    have sel: "selects ref (s_id x)" and x: "findById (s_id x) (sessions sv) = Some x"
      and part: "isParticipant x u" and live: "\<not> terminal x"
      and d: "doc = x\<lparr>s_status := Cancelled, s_endTime := Some now\<rparr>" by simp_all
    from d have fx: "same_fixed x doc" by (simp add: same_fixed_def)
    from put_session_kept [OF assms x fx] cancel_saves [OF False p] sel part live d
    show ?thesis by auto
  qed
qed

lemma status_step:
  assumes "findById i (sessions sv) = Some s"
  shows "\<exists>s'. findById i (sessions (apply_action sv a)) = Some s'
      \<and> s_user1 s' = s_user1 s \<and> s_user2 s' = s_user2 s
      \<and> (s_status s' = s_status s \<or>
          (\<not> terminal s \<and>
            ((\<exists>u now. a = HttpEnd u (Oid i) now \<and> isParticipant s u \<and> s_status s' = Completed) \<or>
             (\<exists>u ref now. a = HttpCancel u ref now \<and> selects ref i \<and> isParticipant s u
                 \<and> s_status s' = Cancelled))))"
proof (cases a)
  case (HttpJoin rq)
  with join_sessions [OF assms, of rq] show ?thesis by simp
next
  case (HttpLeave u t)
  with assms show ?thesis by (simp add: leave_sessions)
next
  case (HttpCancel u ref now)
  with cancel_sessions [OF assms, of u ref now] show ?thesis by auto
next
  case (HttpEnd u sid now)
  with end_sessions [OF assms, of u sid now] show ?thesis by auto
next
  case (HttpFeedback rq)
  with feedback_sessions [OF assms, of rq] show ?thesis by auto
next
  case (SocketConnect sock now)
  with assms show ?thesis by (simp add: on_connection_sessions)
next
  case (SocketEvent sock ev now)
  with assms show ?thesis by (simp add: on_event_sessions)
qed

lemma terminal_run:
  assumes "findById i (sessions sv) = Some s" "terminal s"
  shows "\<exists>s'. findById i (sessions (run sv as)) = Some s' \<and> s_status s' = s_status s"
  using assms
proof (induction as arbitrary: sv s)
  case Nil
  then show ?case by simp
next
  case (Cons a as)
  from status_step [OF Cons.prems(1), of a] Cons.prems(2)
  obtain s1 where s1: "findById i (sessions (apply_action sv a)) = Some s1"
    "s_status s1 = s_status s" by auto
  with Cons.prems(2) have "terminal s1" by (simp add: terminal_def)
  from Cons.IH [OF s1(1) this] s1(2) show ?case by simp
qed

lemma ends_or_cancels_cong:
  "s_user1 S' = s_user1 S \<Longrightarrow> s_user2 S' = s_user2 S \<Longrightarrow>
   ends_or_cancels i S' a = ends_or_cancels i S a"
  by (cases a) (simp_all add: isParticipant_def)

lemma kept_run:
  "findById i (sessions sv) = Some s \<Longrightarrow> \<exists>s'. findById i (sessions (run sv as)) = Some s'"
proof (induction as arbitrary: sv s)
  case Nil
  then show ?case by simp
next
  case (Cons a as)
  from status_step [OF Cons.prems, of a]
  obtain s1 where "findById i (sessions (apply_action sv a)) = Some s1" by blast
  from Cons.IH [OF this] show ?case by simp
qed

lemma active_run:
  assumes "findById i (sessions sv) = Some S" "s_status S = Active"
  shows "\<exists>S'. findById i (sessions (run sv as)) = Some S'
      \<and> (s_status S' = Active \<or> (\<exists>a \<in> set as. ends_or_cancels i S a))"
  using assms
proof (induction as arbitrary: sv S)
  case Nil
  then show ?case by simp
next
  case (Cons a as)
  from status_step [OF Cons.prems(1), of a]
  obtain S1 where S1: "findById i (sessions (apply_action sv a)) = Some S1"
    "s_user1 S1 = s_user1 S" "s_user2 S1 = s_user2 S"
    "s_status S1 = s_status S
     \<or> (\<exists>u now. a = HttpEnd u (Oid i) now \<and> isParticipant S u)
     \<or> (\<exists>u ref now. a = HttpCancel u ref now \<and> selects ref i \<and> isParticipant S u)"
    by blast
  show ?case
  proof (cases "ends_or_cancels i S a")
    case True
    with kept_run [OF S1(1), of as] show ?thesis by auto
  next
    case False
    with S1(4) have "s_status S1 = s_status S" by auto
    with Cons.prems(2) have "s_status S1 = Active" by simp
    from Cons.IH [OF S1(1) this] ends_or_cancels_cong [OF S1(2,3)]
    show ?thesis by auto
  qed
qed

section \<open>Two joins at the same time\<close>

lemma join_alone_eq:
  "join_alone sv rq = (case join sv rq of (sv', r, em) \<Rightarrow> (sv', Responded r em))"
  unfolding join_alone_def join_def
  by (simp add: eval_nat_numeral split: raw_id.splits option.splits)

lemma interleave_first:
  "interleave r1 r2 (replicate n False @ bs) (sv, p1, p2) =
     interleave r1 r2 bs (fst (steps n r1 (sv, p1)), snd (steps n r1 (sv, p1)), p2)"
  by (induction n arbitrary: sv p1) (auto split: prod.splits)

lemma interleave_second:
  "interleave r1 r2 (replicate n True @ bs) (sv, p1, p2) =
     interleave r1 r2 bs (fst (steps n r2 (sv, p2)), p1, snd (steps n r2 (sv, p2)))"
  by (induction n arbitrary: sv p2) (auto split: prod.splits)

lemma one_by_one_eq:
  "interleave r1 r2 one_by_one (sv, AtTopic, AtTopic) =
     (case join sv r1 of (sv1, a1, em1) \<Rightarrow>
        (case join sv1 r2 of (sv2, a2, em2) \<Rightarrow> (sv2, Responded a1 em1, Responded a2 em2)))"
proof -
  have "interleave r1 r2 one_by_one (sv, AtTopic, AtTopic) =
      (fst (join_alone (fst (join_alone sv r1)) r2), snd (join_alone sv r1),
       snd (join_alone (fst (join_alone sv r1)) r2))"
    unfolding one_by_one_def interleave_first join_alone_def [symmetric]
    using interleave_second [of r1 r2 6 "[]"]
    by (simp add: join_alone_def)
  then show ?thesis
    by (simp add: join_alone_eq split: prod.splits)
qed

lemma join_MatchFound_D:
  assumes "join sv rq = (sv1, MatchFound S e, em)"
  shows "\<exists>t. find (waitingUser_query (jr_user rq) t) (waitingPool sv) = Some e
     \<and> waitingPool sv1 = deleteOne (we_id e) (waitingPool sv) \<and> S = new_session rq t e
     \<and> insert_session S (sessions sv) = Some (sessions sv1)"
  using assms
  by (auto simp: join_def split: raw_id.splits option.splits if_splits)

lemma find_mem: "find P xs = Some e \<Longrightarrow> e \<in> set xs \<and> P e"
  by (induction xs) (auto split: if_splits)

lemma deleteOne_subset: "set (deleteOne i pool) \<subseteq> set pool"
  unfolding deleteOne_def by (induction pool) auto

lemma deleteOne_no_id:
  "distinct (map we_id pool) \<Longrightarrow> i \<notin> we_id ` set (deleteOne i pool)"
  unfolding deleteOne_def by (induction pool) (auto simp: image_iff)

lemma deleteOne_distinct:
  "distinct (map we_id pool) \<Longrightarrow> distinct (map we_id (deleteOne i pool))"
  using deleteOne_subset [of i]
  unfolding deleteOne_def by (induction pool) (auto simp: image_iff)

text \<open>
  C2, as the handler has it. Take two join requests whose handlers run one after the
  other, each up to its response before the other starts, over a pool whose entries have
  distinct ids. If both requests are answered with a match, the two matched waiting
  entries are different entries of the pool and neither is left in the pool: a waiting
  entry is consumed by at most one match. The statement is about this schedule only:
  the handler takes no lock between its lookup, the insert of the session and the
  removal of the entry.
\<close>

theorem no_double_match_one_by_one:
  assumes run: "interleave r1 r2 one_by_one (sv, AtTopic, AtTopic) =
                  (sv2, Responded (MatchFound S1 e1) em1, Responded (MatchFound S2 e2) em2)"
      and ids: "distinct (map we_id (waitingPool sv))"
  shows "e1 \<in> set (waitingPool sv) \<and> e2 \<in> set (waitingPool sv) \<and> we_id e1 \<noteq> we_id e2
      \<and> (\<forall>e \<in> set (waitingPool sv2). we_id e \<noteq> we_id e1 \<and> we_id e \<noteq> we_id e2)"
proof -
  obtain sv1 where j1: "join sv r1 = (sv1, MatchFound S1 e1, em1)"
    and j2: "join sv1 r2 = (sv2, MatchFound S2 e2, em2)"
    using run unfolding one_by_one_eq by (auto split: prod.splits)
  from join_MatchFound_D [OF j1] obtain t1
    where f1: "find (waitingUser_query (jr_user r1) t1) (waitingPool sv) = Some e1"
      and p1: "waitingPool sv1 = deleteOne (we_id e1) (waitingPool sv)" by blast
  from join_MatchFound_D [OF j2] obtain t2
    where f2: "find (waitingUser_query (jr_user r2) t2) (waitingPool sv1) = Some e2"
      and p2: "waitingPool sv2 = deleteOne (we_id e2) (waitingPool sv1)" by blast
  have n1: "we_id e1 \<notin> we_id ` set (waitingPool sv1)"
    using ids by (simp add: p1 deleteOne_no_id)
  have d1: "distinct (map we_id (waitingPool sv1))"
    using ids by (simp add: p1 deleteOne_distinct)
  have n2: "we_id e2 \<notin> we_id ` set (waitingPool sv2)"
    using d1 by (simp add: p2 deleteOne_no_id)
  have s2: "set (waitingPool sv2) \<subseteq> set (waitingPool sv1)"
    by (simp add: p2 deleteOne_subset)
  have s1: "set (waitingPool sv1) \<subseteq> set (waitingPool sv)"
    by (simp add: p1 deleteOne_subset)
  from find_mem [OF f1] have m1: "e1 \<in> set (waitingPool sv)" by simp
  from find_mem [OF f2] have m2: "e2 \<in> set (waitingPool sv1)" by simp
  from m2 n1 have ne: "we_id e1 \<noteq> we_id e2" by (metis imageI)
  from m2 s1 have m2': "e2 \<in> set (waitingPool sv)" by blast
  have gone: "we_id e \<noteq> we_id e1 \<and> we_id e \<noteq> we_id e2" if "e \<in> set (waitingPool sv2)" for e
  proof -
    from that s2 have "e \<in> set (waitingPool sv1)" by blast
    with n1 have "we_id e \<noteq> we_id e1" by (metis imageI)
    moreover from that n2 have "we_id e \<noteq> we_id e2" by (metis imageI)
    ultimately show ?thesis by simp
  qed
  with m1 m2' ne show ?thesis by simp
qed

lemma cy_then_dee:
  "snd (interleave join_cy join_dee one_by_one (sv_two_waiting, AtTopic, AtTopic)) =
     (Responded (MatchFound (new_session join_cy 7 entry_ann) entry_ann) [],
      Responded (MatchFound (new_session join_dee 7 entry_bob) entry_bob) [])"
  unfolding one_by_one_eq
  by (simp add: join_def sv_two_waiting_def sv_idle_def join_cy_def join_dee_def
      entry_ann_def entry_bob_def ex_topics_def ex_users_def insert_session_def new_session_def
      pre_save_def deleteOne_def io_to_def
      existingEntry_query_def activeSession_query_def waitingUser_query_def)

theorem no_double_match_one_by_one_witness:
  "snd (interleave join_cy join_dee one_by_one (sv_two_waiting, AtTopic, AtTopic)) =
     (Responded (MatchFound (new_session join_cy 7 entry_ann) entry_ann) [],
      Responded (MatchFound (new_session join_dee 7 entry_bob) entry_bob) [])
   \<and> distinct (map we_id (waitingPool sv_two_waiting))
   \<and> we_id entry_ann \<noteq> we_id entry_bob
   \<and> entry_ann \<notin> set (waitingPool (fst (interleave join_cy join_dee one_by_one (sv_two_waiting, AtTopic, AtTopic))))
   \<and> entry_bob \<notin> set (waitingPool (fst (interleave join_cy join_dee one_by_one (sv_two_waiting, AtTopic, AtTopic))))"
proof -
  let ?c = "interleave join_cy join_dee one_by_one (sv_two_waiting, AtTopic, AtTopic)"
  have h1: "?c = (fst ?c, Responded (MatchFound (new_session join_cy 7 entry_ann) entry_ann) [],
      Responded (MatchFound (new_session join_dee 7 entry_bob) entry_bob) [])"
    using cy_then_dee by (metis prod.collapse)
  have h2: "distinct (map we_id (waitingPool sv_two_waiting))"
    by (simp add: sv_two_waiting_def entry_ann_def entry_bob_def)
  from no_double_match_one_by_one [OF h1 h2] cy_then_dee h2 show ?thesis by blast
qed

text \<open>
  Ann waits for topic 7; Cy and Dee join it at the same time. Both handlers run their
  lookups before either saves its session and deletes Ann's entry. Both are answered
  with a match for Ann's one waiting entry, and two sessions with Ann exist.
\<close>

theorem double_match_counterexample:
  "snd (interleave join_cy join_dee racing_schedule (sv_ann_waiting, AtTopic, AtTopic)) =
     (Responded (MatchFound (new_session join_cy 7 entry_ann) entry_ann) [],
      Responded (MatchFound (new_session join_dee 7 entry_ann) entry_ann) [])
   \<and> sessions (fst (interleave join_cy join_dee racing_schedule (sv_ann_waiting, AtTopic, AtTopic))) =
     [new_session join_cy 7 entry_ann, new_session join_dee 7 entry_ann]"
  by (simp add: racing_schedule_def sv_ann_waiting_def sv_idle_def join_cy_def join_dee_def
      entry_ann_def ex_topics_def ex_users_def insert_session_def new_session_def pre_save_def
      deleteOne_def io_to_def
      existingEntry_query_def activeSession_query_def waitingUser_query_def)

section \<open>Which waiting entry is matched\<close>

lemma find_skips_prefix:
  "\<forall>x \<in> set pre. \<not> P x \<Longrightarrow> P e \<Longrightarrow> find P (pre @ e # post) = Some e"
  by (induction pre) auto

lemma find_Some_split:
  assumes "find P xs = Some e"
  shows "\<exists>pre post. P e \<and> (\<forall>x \<in> set pre. \<not> P x) \<and> xs = pre @ e # post"
proof -
  from assms have "find P xs \<noteq> None" by simp
  then have "\<exists>x. x \<in> set xs \<and> P x" by (simp add: find_None_iff)
  then have "\<exists>x \<in> set xs. P x" by blast
  from split_list_first_prop [OF this] obtain pre x post
    where s: "xs = pre @ x # post" "P x" "\<forall>y \<in> set pre. \<not> P y"
    by blast
  with find_skips_prefix [of pre P x post] assms have "x = e" by simp
  with s show ?thesis by blast
qed

lemma delete_first_split:
  "\<forall>x \<in> set pre. \<not> q x \<Longrightarrow> q e \<Longrightarrow> delete_first q (pre @ e # post) = pre @ post"
  by (induction pre) auto

text \<open>
  What the matcher selects. When a join request gets past the checks and the pool holds
  a candidate (an active entry for the topic of another user), the handler matches the
  first candidate in the order of the collection, removes exactly that entry and answers
  with the match. If the collection is stored in the order of \<open>joinedAt\<close>, this
  first candidate is also the oldest one.
\<close>

lemma first_candidate_matched:
  assumes rm: "reaches_matcher sv rq t"
      and cand: "\<exists>c \<in> set (waitingPool sv). waitingUser_query (jr_user rq) t c"
      and reg: "\<forall>x \<in> set (waitingPool sv). users sv (we_user x) \<noteq> None"
      and ids: "distinct (map we_id (waitingPool sv))"
      and fresh: "fresh_session_ids sv rq"
  shows "\<exists>pre e post S em.
      waitingPool sv = pre @ e # post
      \<and> waitingUser_query (jr_user rq) t e
      \<and> (\<forall>x \<in> set pre. \<not> waitingUser_query (jr_user rq) t x)
      \<and> join sv rq = (sv\<lparr>sessions := sessions sv @ [S], waitingPool := pre @ post\<rparr>, MatchFound S e, em)
      \<and> e \<notin> set (pre @ post)
      \<and> s_user1 S = we_user e \<and> s_user2 S = jr_user rq \<and> s_status S = Active
      \<and> (sorted_wrt (\<lambda>a b. we_joinedAt a \<le> we_joinedAt b) (waitingPool sv) \<longrightarrow>
           (\<forall>c \<in> set (waitingPool sv). waitingUser_query (jr_user rq) t c \<longrightarrow> we_joinedAt e \<le> we_joinedAt c))"
proof -
  let ?q = "waitingUser_query (jr_user rq) t"
  from cand obtain e where f: "find ?q (waitingPool sv) = Some e"
    by (cases "find ?q (waitingPool sv)") (auto simp: find_None_iff)
  from find_Some_split [OF f] obtain pre post
    where pool: "waitingPool sv = pre @ e # post" and qe: "?q e" and pre: "\<forall>x \<in> set pre. \<not> ?q x"
    by blast
  from ids pool have d: "\<forall>x \<in> set pre. we_id x \<noteq> we_id e" "e \<notin> set (pre @ post)"
    by (auto simp: image_iff)
  have del: "deleteOne (we_id e) (waitingPool sv) = pre @ post"
    using d(1) by (simp add: pool deleteOne_def delete_first_split)
  let ?S = "new_session rq t e"
  have ins_s: "insert_session ?S (sessions sv) = Some (sessions sv @ [?S])"
    using fresh
    by (auto simp: fresh_session_ids_def insert_session_def new_session_def pre_save_def)
  from reg pool obtain ue where ue: "users sv (we_user e) = Some ue" by auto
  from rm obtain tp where tp: "jr_topicId rq = Oid t" "topics sv t = Some tp" "t_isActive tp"
    "find (existingEntry_query (jr_user rq) t) (waitingPool sv) = None"
    "find (activeSession_query (jr_user rq)) (sessions sv) = None"
    by (auto simp: reaches_matcher_def split: option.splits)
  have j: "join sv rq = (sv\<lparr>sessions := sessions sv @ [?S], waitingPool := pre @ post\<rparr>, MatchFound ?S e,
       io_to (rooms sv) (we_socketId e) (EvMatchFound ?S (jr_user rq)))"
    using tp f ue ins_s del by (simp add: join_def)
  have oldest: "we_joinedAt e \<le> we_joinedAt c"
    if "sorted_wrt (\<lambda>a b. we_joinedAt a \<le> we_joinedAt b) (waitingPool sv)"
      and "c \<in> set (waitingPool sv)" and "?q c" for c
    using that pre unfolding pool by (auto simp: sorted_wrt_append)
  have fields: "s_user1 ?S = we_user e" "s_user2 ?S = jr_user rq" "s_status ?S = Active"
    by (simp_all add: new_session_def)
  from pool qe pre j d(2) fields oldest show ?thesis by blast
qed

lemma first_candidate_matched_example:
  "reaches_matcher sv_two_sorted join_cy 7
   \<and> waitingUser_query (jr_user join_cy) 7 entry_bob \<and> waitingUser_query (jr_user join_cy) 7 entry_ann
   \<and> sorted_wrt (\<lambda>a b. we_joinedAt a \<le> we_joinedAt b) (waitingPool sv_two_sorted)
   \<and> (\<exists>sv' S e em. join sv_two_sorted join_cy = (sv', MatchFound S e, em)
        \<and> e \<in> set (waitingPool sv_two_sorted) \<and> e \<notin> set (waitingPool sv')
        \<and> we_joinedAt e \<le> we_joinedAt entry_bob \<and> we_joinedAt e \<le> we_joinedAt entry_ann)"
proof -
  have p: "waitingPool sv_two_sorted = [entry_bob, entry_ann]"
    by (simp add: sv_two_sorted_def)
  have h1: "reaches_matcher sv_two_sorted join_cy 7"
    by (simp add: reaches_matcher_def sv_two_sorted_def sv_idle_def join_cy_def ex_topics_def
        entry_ann_def entry_bob_def existingEntry_query_def)
  have q: "waitingUser_query (jr_user join_cy) 7 entry_bob" "waitingUser_query (jr_user join_cy) 7 entry_ann"
    by (simp_all add: waitingUser_query_def join_cy_def entry_bob_def entry_ann_def)
  have h2: "\<exists>c \<in> set (waitingPool sv_two_sorted). waitingUser_query (jr_user join_cy) 7 c"
    using q by (simp add: p)
  have h3: "\<forall>x \<in> set (waitingPool sv_two_sorted). users sv_two_sorted (we_user x) \<noteq> None"
    by (simp add: sv_two_sorted_def sv_idle_def ex_users_def entry_ann_def entry_bob_def)
  have h4: "distinct (map we_id (waitingPool sv_two_sorted))"
    by (simp add: p entry_ann_def entry_bob_def)
  have h5: "fresh_session_ids sv_two_sorted join_cy"
    by (simp add: fresh_session_ids_def sv_two_sorted_def sv_idle_def)
  have h6: "sorted_wrt (\<lambda>a b. we_joinedAt a \<le> we_joinedAt b) (waitingPool sv_two_sorted)"
    by (simp add: p entry_ann_def entry_bob_def)
  from first_candidate_matched [OF h1 h2 h3 h4 h5] h6
  obtain pre e post S em where r: "waitingPool sv_two_sorted = pre @ e # post"
    "join sv_two_sorted join_cy =
       (sv_two_sorted\<lparr>sessions := sessions sv_two_sorted @ [S], waitingPool := pre @ post\<rparr>, MatchFound S e, em)"
    "e \<notin> set (pre @ post)"
    "\<forall>c \<in> set (waitingPool sv_two_sorted). waitingUser_query (jr_user join_cy) 7 c \<longrightarrow> we_joinedAt e \<le> we_joinedAt c"
    by blast
  from r(4) q have le: "we_joinedAt e \<le> we_joinedAt entry_bob" "we_joinedAt e \<le> we_joinedAt entry_ann"
    by (simp_all add: p)
  from r(1) have "e \<in> set (waitingPool sv_two_sorted)" by simp
  with r(2,3) le have "\<exists>sv' S e em. join sv_two_sorted join_cy = (sv', MatchFound S e, em)
        \<and> e \<in> set (waitingPool sv_two_sorted) \<and> e \<notin> set (waitingPool sv')
        \<and> we_joinedAt e \<le> we_joinedAt entry_bob \<and> we_joinedAt e \<le> we_joinedAt entry_ann"
    by (intro exI [of _ "sv_two_sorted\<lparr>sessions := sessions sv_two_sorted @ [S], waitingPool := pre @ post\<rparr>"]
        exI [of _ S] exI [of _ e] exI [of _ em]) simp
  with h1 q h6 show ?thesis by blast
qed

text \<open>
  C3: with more than one active waiting entry of other users for the topic, the matcher
  is to select the oldest one by enqueue timestamp. The handler's \<open>findOne\<close>
  carries no sort. Here Ann's entry is stored before Bob's while Bob's \<open>joinedAt\<close>
  is the earlier one; Cy's join is matched with Ann, not with Bob, who has waited
  longest.
\<close>

theorem join_takes_first_stored_not_oldest:
  "fst (snd (join sv_two_waiting join_cy)) = MatchFound (new_session join_cy 7 entry_ann) entry_ann
   \<and> waitingPool sv_two_waiting = [entry_ann, entry_bob]
   \<and> waitingUser_query (jr_user join_cy) 7 entry_bob
   \<and> we_joinedAt entry_bob < we_joinedAt entry_ann"
  by (simp add: join_def sv_two_waiting_def sv_idle_def join_cy_def entry_ann_def entry_bob_def
      ex_topics_def ex_users_def insert_session_def new_session_def pre_save_def
      existingEntry_query_def activeSession_query_def waitingUser_query_def)

section \<open>Conflicts\<close>

text \<open>
  C4, as the handler has it. A join request with a well-formed topic id, by an identity
  that already has an active waiting entry for that topic or a waiting or active
  session, is refused and the server is left as it was: no waiting entry and no session
  is created and nothing is emitted. When the topic exists and is active the answer is
  one of two conflict errors, "already in the waiting pool" for the entry (checked
  first) and "in an active session" for the session. When the topic is missing or
  inactive the topic lookup, which comes first, answers "topic not found".
\<close>

theorem conflicting_join_rejected:
  assumes rq: "jr_user rq = u" "jr_topicId rq = Oid t"
      and conflict: "(\<exists>e \<in> set (waitingPool sv). we_user e = u \<and> we_topic e = t \<and> we_isActive e)
                   \<or> (\<exists>s \<in> set (sessions sv). isParticipant s u \<and> (s_status s = Waiting \<or> s_status s = Active))"
  shows "join sv rq =
      (sv,
       if \<not> (case topics sv t of None \<Rightarrow> False | Some tp \<Rightarrow> t_isActive tp) then TopicNotFound
       else if \<exists>e \<in> set (waitingPool sv). we_user e = u \<and> we_topic e = t \<and> we_isActive e
         then AlreadyInPool
       else InActiveSession,
       [])"
proof -
  let ?E = "\<exists>e \<in> set (waitingPool sv). we_user e = u \<and> we_topic e = t \<and> we_isActive e"
  have e: "find (existingEntry_query (jr_user rq) t) (waitingPool sv) = None \<longleftrightarrow> \<not> ?E"
    using rq by (auto simp: find_None_iff existingEntry_query_def)
  have s: "find (activeSession_query (jr_user rq)) (sessions sv) = None
      \<longleftrightarrow> \<not> (\<exists>s \<in> set (sessions sv). isParticipant s u \<and> (s_status s = Waiting \<or> s_status s = Active))"
    using rq by (auto simp: find_None_iff activeSession_query_def isParticipant_def)
  show ?thesis
  proof (cases "topics sv t")
    case None
    with rq show ?thesis by (simp add: join_def)
  next
    case (Some tp)
    show ?thesis
    proof (cases "t_isActive tp")
      case False
      with Some rq show ?thesis by (simp add: join_def)
    next
      case True
      show ?thesis
      proof (cases ?E)
        case True
        with e \<open>t_isActive tp\<close> Some rq(2) show ?thesis by (simp add: join_def)
      next
        case False
        with conflict s have "find (activeSession_query (jr_user rq)) (sessions sv) \<noteq> None"
          by blast
        with False e True Some rq(2) show ?thesis by (simp add: join_def)
      qed
    qed
  qed
qed

theorem conflicting_join_rejected_witness:
  "(\<exists>e \<in> set (waitingPool sv_in_session). we_user e = 2 \<and> we_topic e = 7 \<and> we_isActive e)
   \<and> join sv_in_session join_bob = (sv_in_session, AlreadyInPool, [])
   \<and> (\<exists>s \<in> set (sessions sv_in_session). isParticipant s 1 \<and> (s_status s = Waiting \<or> s_status s = Active))
   \<and> join sv_in_session join_ann = (sv_in_session, InActiveSession, [])
   \<and> join sv_in_session join_ann_cobol = (sv_in_session, TopicNotFound, [])"
proof -
  have b: "jr_user join_bob = 2" "jr_topicId join_bob = Oid 7"
    and a: "jr_user join_ann = 1" "jr_topicId join_ann = Oid 7"
    and c: "jr_user join_ann_cobol = 1" "jr_topicId join_ann_cobol = Oid 8"
    by (simp_all add: join_bob_def join_ann_def join_ann_cobol_def)
  have e: "\<exists>e \<in> set (waitingPool sv_in_session). we_user e = 2 \<and> we_topic e = 7 \<and> we_isActive e"
    by (simp add: sv_in_session_def entry_bob_def)
  have ne: "\<not> (\<exists>e \<in> set (waitingPool sv_in_session). we_user e = 1 \<and> we_topic e = 7 \<and> we_isActive e)"
    "\<not> (\<exists>e \<in> set (waitingPool sv_in_session). we_user e = 1 \<and> we_topic e = 8 \<and> we_isActive e)"
    by (simp_all add: sv_in_session_def entry_bob_def)
  have s: "\<exists>s \<in> set (sessions sv_in_session). isParticipant s 1 \<and> (s_status s = Waiting \<or> s_status s = Active)"
    by (simp add: sv_in_session_def session_50_def isParticipant_def)
  have t: "topics sv_in_session 7 = Some \<lparr>t_name = ''css'', t_isActive = True, t_sessionsCount = 0\<rparr>"
    "topics sv_in_session 8 = Some \<lparr>t_name = ''cobol'', t_isActive = False, t_sessionsCount = 0\<rparr>"
    by (simp_all add: sv_in_session_def sv_idle_def ex_topics_def)
  from conflicting_join_rejected [OF b, of sv_in_session] e t
  have 1: "join sv_in_session join_bob = (sv_in_session, AlreadyInPool, [])" by simp
  from conflicting_join_rejected [OF a, of sv_in_session] s ne t
  have 2: "join sv_in_session join_ann = (sv_in_session, InActiveSession, [])" by simp
  from conflicting_join_rejected [OF c, of sv_in_session] s t
  have 3: "join sv_in_session join_ann_cobol = (sv_in_session, TopicNotFound, [])" by simp
  from e s 1 2 3 show ?thesis by blast
qed

text \<open>
  Ann is in the active session 50 and asks to join topic 8, which is inactive. The
  request is refused without any change, but as "topic not found", not with a conflict
  error.
\<close>

theorem conflicting_join_counterexample:
  "find (activeSession_query (jr_user join_ann_cobol)) (sessions sv_in_session) = Some session_50
   \<and> join sv_in_session join_ann_cobol = (sv_in_session, TopicNotFound, [])"
  by (simp add: join_def sv_in_session_def sv_idle_def join_ann_cobol_def ex_topics_def
      session_50_def activeSession_query_def)

section \<open>Ending and cancelling a session\<close>

text \<open>
  C5, for handlers that run one after the other. Let a participant call end on a session.
  If its status is active, the call succeeds, the stored session is then completed with
  the call's time as its end time, and after it every end or cancel call of a
  participant is answered "already ended" and changes nothing. If the session is
  completed or cancelled, the participant's end and cancel calls are answered "already
  ended" and change nothing; a call of anybody else is refused too (as "access denied")
  and changes nothing; and whatever requests the server handles from there on, each to
  its end before the next, the session is still found with the same status.
\<close>

theorem end_then_already_ended:
  assumes found: "findById i (sessions sv) = Some s"
      and part: "isParticipant s u"
  shows "(s_status s = Active \<longrightarrow>
           (\<exists>sv' s' em. end_session sv u (Oid i) now = (sv', SessionEndedOk s', em)
              \<and> findById i (sessions sv') = Some s'
              \<and> s_status s' = Completed \<and> s_endTime s' = Some now
              \<and> (\<forall>u' now'. isParticipant s u' \<longrightarrow>
                    end_session sv' u' (Oid i) now' = (sv', AlreadyEnded, [])
                    \<and> cancel sv' u' (RefOid i) now' = (sv', AlreadyEnded, []))))
       \<and> (terminal s \<longrightarrow>
             end_session sv u (Oid i) now = (sv, AlreadyEnded, [])
             \<and> cancel sv u (RefOid i) now = (sv, AlreadyEnded, [])
             \<and> (\<forall>u' now'. fst (end_session sv u' (Oid i) now') = sv
                    \<and> fst (cancel sv u' (RefOid i) now') = sv
                    \<and> fst (snd (end_session sv u' (Oid i) now')) \<in> {AlreadyEnded, AccessDenied}
                    \<and> fst (snd (cancel sv u' (RefOid i) now')) \<in> {AlreadyEnded, AccessDenied})
             \<and> (\<forall>as. \<exists>s'. findById i (sessions (run sv as)) = Some s' \<and> s_status s' = s_status s))"
proof (intro conjI impI)
  assume act: "s_status s = Active"
  let ?s' = "pre_save (s\<lparr>s_status := Completed, s_endTime := Some now\<rparr>)"
  let ?sv' = "sv\<lparr>sessions := put_session ?s' (sessions sv),
                 users := inc_sessionsCompleted (s_user2 s) (inc_sessionsCompleted (s_user1 s) (users sv)),
                 topics := inc_sessionsCount (s_topic s) (topics sv)\<rparr>"
  from found part act
  have l: "end_lookup sv u (Oid i) now = Inr (s, s\<lparr>s_status := Completed, s_endTime := Some now\<rparr>)"
    by (simp add: end_lookup_found terminal_def)
  have e: "end_session sv u (Oid i) now =
      (?sv', SessionEndedOk ?s', io_to (rooms sv) (s_roomId s) (EvSessionEnded (s_id s) u))"
    using end_session_saves [OF l] .
  have f: "findById i (sessions ?sv') = Some ?s'"
    using found findById_id [OF found] by (simp add: findById_put_session)
  have t: "terminal ?s'" by (simp add: terminal_def)
  have again: "end_session ?sv' u' (Oid i) now' = (?sv', AlreadyEnded, [])
      \<and> cancel ?sv' u' (RefOid i) now' = (?sv', AlreadyEnded, [])" if "isParticipant s u'" for u' now'
  proof -
    from that have p: "isParticipant ?s' u'" by (simp add: isParticipant_def)
    from end_lookup_found [OF f, of u' now'] p t
    have "end_lookup ?sv' u' (Oid i) now' = Inl AlreadyEnded" by simp
    moreover from cancel_lookup_found [OF f, of u' now'] p t
    have "cancel_lookup ?sv' u' (RefOid i) now' = Inl AlreadyEnded" by simp
    ultimately show ?thesis
      using end_session_refused [of ?sv' u' "Oid i" now' AlreadyEnded]
        cancel_refused [of "RefOid i" ?sv' u' now' AlreadyEnded] by simp
  qed
  from e f again
  show "\<exists>sv' s' em. end_session sv u (Oid i) now = (sv', SessionEndedOk s', em)
      \<and> findById i (sessions sv') = Some s'
      \<and> s_status s' = Completed \<and> s_endTime s' = Some now
      \<and> (\<forall>u' now'. isParticipant s u' \<longrightarrow>
            end_session sv' u' (Oid i) now' = (sv', AlreadyEnded, [])
            \<and> cancel sv' u' (RefOid i) now' = (sv', AlreadyEnded, []))"
    by (intro exI [of _ ?sv'] exI [of _ ?s'] exI) simp
next
  assume "terminal s"
  with found part show "end_session sv u (Oid i) now = (sv, AlreadyEnded, [])"
    by (simp add: end_session_refused end_lookup_found)
next
  assume "terminal s"
  with found part show "cancel sv u (RefOid i) now = (sv, AlreadyEnded, [])"
    by (simp add: cancel_refused cancel_lookup_found)
next
  assume "terminal s"
  with found show "\<forall>u' now'. fst (end_session sv u' (Oid i) now') = sv
      \<and> fst (cancel sv u' (RefOid i) now') = sv
      \<and> fst (snd (end_session sv u' (Oid i) now')) \<in> {AlreadyEnded, AccessDenied}
      \<and> fst (snd (cancel sv u' (RefOid i) now')) \<in> {AlreadyEnded, AccessDenied}"
    by (simp add: end_session_def cancel_def end_lookup_found cancel_lookup_found)
next
  assume "terminal s"
  with found show "\<forall>as. \<exists>s'. findById i (sessions (run sv as)) = Some s' \<and> s_status s' = s_status s"
    using terminal_run by blast
qed

theorem end_then_already_ended_witness:
  "findById 50 (sessions sv_in_session) = Some session_50 \<and> isParticipant session_50 1
   \<and> s_status session_50 = Active
   \<and> (\<exists>sv' s' em. end_session sv_in_session 1 (Oid 50) 20 = (sv', SessionEndedOk s', em)
         \<and> s_status s' = Completed \<and> s_endTime s' = Some 20
         \<and> end_session sv' 2 (Oid 50) 21 = (sv', AlreadyEnded, [])
         \<and> cancel sv' 2 (RefOid 50) 21 = (sv', AlreadyEnded, []))"
proof -
  have h1: "findById 50 (sessions sv_in_session) = Some session_50"
    by (simp add: findById_def sv_in_session_def session_50_def)
  have h2: "isParticipant session_50 1" "isParticipant session_50 2"
    by (simp_all add: isParticipant_def session_50_def)
  have h3: "s_status session_50 = Active" by (simp add: session_50_def)
  from end_then_already_ended [OF h1 h2(1), of 20] h3 h2(2)
  obtain sv' s' em where "end_session sv_in_session 1 (Oid 50) 20 = (sv', SessionEndedOk s', em)"
    "s_status s' = Completed" "s_endTime s' = Some 20"
    "end_session sv' 2 (Oid 50) 21 = (sv', AlreadyEnded, [])"
    "cancel sv' 2 (RefOid 50) 21 = (sv', AlreadyEnded, [])"
    by blast
  with h1 h2 h3 show ?thesis by blast
qed

text \<open>
  With two handlers in flight a terminal status is left. Ann's end call and Bob's cancel
  call both look session 50 up while it is active and both pass the status check. Ann's
  save stores it as completed; Bob's save, which checks nothing, then stores it as
  cancelled. Both calls are answered as successful.
\<close>

theorem cancel_after_end_counterexample:
  "map s_status (sessions (fst (interleave_calls (take 3 cancel_overtaken) end_and_cancel))) = [Completed]
   \<and> map s_status (sessions (fst (interleave_calls (take 4 cancel_overtaken) end_and_cancel))) = [Cancelled]
   \<and> map s_status (sessions (fst (interleave_calls cancel_overtaken end_and_cancel))) = [Cancelled]
   \<and> map_option is_ended_ok (call_reply (fst (snd (interleave_calls cancel_overtaken end_and_cancel)))) = Some True
   \<and> call_reply (snd (snd (interleave_calls cancel_overtaken end_and_cancel))) = Some SessionCancelledOk"
  by (simp add: end_and_cancel_def cancel_overtaken_def sv_in_session_def sv_idle_def session_50_def
      end_lookup_def cancel_lookup_def findById_def isParticipant_def save_session_def
      save_paths_def pre_save_def io_to_def inc_sessionsCompleted_def inc_sessionsCount_def)

section \<open>Disconnects\<close>

text \<open>
  C6, with the recipients the handler has. Let S be an active session and let the socket
  of one of its participants disconnect. The sessions are exactly what they were, so S
  is still active. Everything the handler emits is a \<open>participantDisconnected\<close>
  event, addressed to a socket other than the disconnecting one that sits in the room of
  an active session of the identity, and every other socket in the room of S gets one,
  whoever it belongs to. From the state after the disconnect, of all the actions of the
  server only an end call or a cancel call for S by a participant moves S out of the
  active status, to completed and to cancelled; along any run of the server S stays
  active unless the run holds such a call; and after the disconnect both calls still
  succeed and store S as completed and as cancelled, with the call's time as end time.
\<close>

theorem disconnect_keeps_session_active:
  assumes found: "findById i (sessions sv) = Some S"
      and act: "s_status S = Active"
      and part: "isParticipant S (sock_userId sock)"
  shows "sessions (fst (on_event sv sock (Disconnect reason) now)) = sessions sv
     \<and> (\<forall>em \<in> set (snd (on_event sv sock (Disconnect reason) now)).
           snd em = EvParticipantDisconnected (sock_userId sock) (sock_username sock) reason
           \<and> fst em \<noteq> sock_id sock
           \<and> (\<exists>S' \<in> set (sessions sv). isParticipant S' (sock_userId sock) \<and> s_status S' = Active
                  \<and> fst em \<in> set (rooms sv (s_roomId S'))))
     \<and> (\<forall>sid \<in> set (rooms sv (s_roomId S)). sid \<noteq> sock_id sock \<longrightarrow>
           (sid, EvParticipantDisconnected (sock_userId sock) (sock_username sock) reason)
             \<in> set (snd (on_event sv sock (Disconnect reason) now)))
     \<and> (\<forall>a. \<exists>S'. findById i (sessions (apply_action (fst (on_event sv sock (Disconnect reason) now)) a)) = Some S' \<and>
           (s_status S' = Active
            \<or> (\<exists>u n. a = HttpEnd u (Oid i) n \<and> isParticipant S u \<and> s_status S' = Completed)
            \<or> (\<exists>u ref n. a = HttpCancel u ref n \<and> selects ref i \<and> isParticipant S u
                  \<and> s_status S' = Cancelled)))
     \<and> (\<forall>as. \<exists>S'. findById i (sessions (run (fst (on_event sv sock (Disconnect reason) now)) as)) = Some S' \<and>
           (s_status S' = Active \<or> (\<exists>a \<in> set as. ends_or_cancels i S a)))
     \<and> (\<forall>u n. isParticipant S u \<longrightarrow>
           (\<exists>S'. findById i (sessions (fst (cancel (fst (on_event sv sock (Disconnect reason) now)) u (RefOid i) n))) = Some S'
                 \<and> s_status S' = Cancelled \<and> s_endTime S' = Some n)
           \<and> fst (snd (cancel (fst (on_event sv sock (Disconnect reason) now)) u (RefOid i) n)) = SessionCancelledOk
           \<and> (\<exists>S'. findById i (sessions (fst (end_session (fst (on_event sv sock (Disconnect reason) now)) u (Oid i) n))) = Some S'
                 \<and> s_status S' = Completed \<and> s_endTime S' = Some n)
           \<and> is_ended_ok (fst (snd (end_session (fst (on_event sv sock (Disconnect reason) now)) u (Oid i) n))))"
proof (intro conjI ballI allI impI)
  show "sessions (fst (on_event sv sock (Disconnect reason) now)) = sessions sv" by simp
next
  fix em assume "em \<in> set (snd (on_event sv sock (Disconnect reason) now))"
  then show "snd em = EvParticipantDisconnected (sock_userId sock) (sock_username sock) reason"
    and "fst em \<noteq> sock_id sock"
    and "\<exists>S' \<in> set (sessions sv). isParticipant S' (sock_userId sock) \<and> s_status S' = Active
           \<and> fst em \<in> set (rooms sv (s_roomId S'))"
    by (auto simp: socket_to_def leave_all_def activeSessions_def isParticipant_def)
next
  fix sid assume "sid \<in> set (rooms sv (s_roomId S))" "sid \<noteq> sock_id sock"
  moreover from findById_mem [OF found] act part have "S \<in> set (activeSessions sock (sessions sv))"
    by (simp add: activeSessions_def isParticipant_def)
  ultimately show "(sid, EvParticipantDisconnected (sock_userId sock) (sock_username sock) reason)
      \<in> set (snd (on_event sv sock (Disconnect reason) now))"
    by (auto simp: socket_to_def leave_all_def intro!: bexI [of _ S])
next
  fix a
  have "findById i (sessions (fst (on_event sv sock (Disconnect reason) now))) = Some S"
    using found by simp
  from status_step [OF this, of a] act
  show "\<exists>S'. findById i (sessions (apply_action (fst (on_event sv sock (Disconnect reason) now)) a)) = Some S' \<and>
           (s_status S' = Active
            \<or> (\<exists>u n. a = HttpEnd u (Oid i) n \<and> isParticipant S u \<and> s_status S' = Completed)
            \<or> (\<exists>u ref n. a = HttpCancel u ref n \<and> selects ref i \<and> isParticipant S u
                  \<and> s_status S' = Cancelled))"
    by auto
next
  fix as
  have "findById i (sessions (fst (on_event sv sock (Disconnect reason) now))) = Some S"
    using found by simp
  from active_run [OF this act, of as]
  show "\<exists>S'. findById i (sessions (run (fst (on_event sv sock (Disconnect reason) now)) as)) = Some S' \<and>
           (s_status S' = Active \<or> (\<exists>a \<in> set as. ends_or_cancels i S a))" .
next
  fix u n assume p: "isParticipant S u"
  let ?sv = "fst (on_event sv sock (Disconnect reason) now)"
  have f: "findById i (sessions ?sv) = Some S" using found by simp
  from act have live: "\<not> terminal S" by (simp add: terminal_def)
  from cancel_lookup_found [OF f, of u n] p live
  have l: "cancel_lookup ?sv u (RefOid i) n = Inr (S, S\<lparr>s_status := Cancelled, s_endTime := Some n\<rparr>)"
    by simp
  have c: "cancel ?sv u (RefOid i) n =
      (?sv\<lparr>sessions := put_session (pre_save (S\<lparr>s_status := Cancelled, s_endTime := Some n\<rparr>)) (sessions ?sv)\<rparr>,
       SessionCancelledOk, io_to (rooms ?sv) (s_roomId S) (EvSessionCancelled (s_id S) u))"
    using cancel_saves [OF _ l] by simp
  from f findById_id [OF f]
  show "\<exists>S'. findById i (sessions (fst (cancel ?sv u (RefOid i) n))) = Some S'
      \<and> s_status S' = Cancelled \<and> s_endTime S' = Some n"
    unfolding c by (simp add: findById_put_session)
  show "fst (snd (cancel ?sv u (RefOid i) n)) = SessionCancelledOk"
    unfolding c by simp
  from end_lookup_found [OF f, of u n] p live
  have l: "end_lookup ?sv u (Oid i) n = Inr (S, S\<lparr>s_status := Completed, s_endTime := Some n\<rparr>)"
    by simp
  note e = end_session_saves [OF l]
  from f findById_id [OF f]
  show "\<exists>S'. findById i (sessions (fst (end_session ?sv u (Oid i) n))) = Some S'
      \<and> s_status S' = Completed \<and> s_endTime S' = Some n"
    unfolding e by (simp add: findById_put_session)
  show "is_ended_ok (fst (snd (end_session ?sv u (Oid i) n)))"
    unfolding e by simp
qed

theorem disconnect_keeps_session_active_witness:
  "findById 50 (sessions sv_in_session) = Some session_50 \<and> s_status session_50 = Active
   \<and> isParticipant session_50 (sock_userId sock_ann)
   \<and> sessions (fst (on_event sv_in_session sock_ann (Disconnect ''transport close'') 30)) = [session_50]
   \<and> (''sock-b'', EvParticipantDisconnected 1 ''ann'' ''transport close'')
        \<in> set (snd (on_event sv_in_session sock_ann (Disconnect ''transport close'') 30))
   \<and> (\<exists>S'. findById 50 (sessions (fst (end_session
          (fst (on_event sv_in_session sock_ann (Disconnect ''transport close'') 30)) 2 (Oid 50) 31))) = Some S'
        \<and> s_status S' = Completed)"
proof -
  have h1: "findById 50 (sessions sv_in_session) = Some session_50"
    by (simp add: findById_def sv_in_session_def session_50_def)
  have h2: "s_status session_50 = Active" by (simp add: session_50_def)
  have h3: "isParticipant session_50 (sock_userId sock_ann)"
    by (simp add: isParticipant_def session_50_def sock_ann_def)
  have h4: "''sock-b'' \<in> set (rooms sv_in_session (s_roomId session_50))" "''sock-b'' \<noteq> sock_id sock_ann"
    by (simp_all add: sv_in_session_def session_50_def sock_ann_def)
  have h5: "sessions sv_in_session = [session_50]" "sock_userId sock_ann = 1" "sock_username sock_ann = ''ann''"
    by (simp_all add: sv_in_session_def sock_ann_def)
  have h6: "isParticipant session_50 2" by (simp add: isParticipant_def session_50_def)
  note t = disconnect_keeps_session_active [OF h1 h2 h3, of "''transport close''" 30]
  from t h4 h5
  have "sessions (fst (on_event sv_in_session sock_ann (Disconnect ''transport close'') 30)) = [session_50]"
    and "(''sock-b'', EvParticipantDisconnected 1 ''ann'' ''transport close'')
        \<in> set (snd (on_event sv_in_session sock_ann (Disconnect ''transport close'') 30))"
    by (metis, metis)
  moreover from t h6
  have "\<exists>S'. findById 50 (sessions (fst (end_session
          (fst (on_event sv_in_session sock_ann (Disconnect ''transport close'') 30)) 2 (Oid 50) 31))) = Some S'
        \<and> s_status S' = Completed"
    by blast
  ultimately show ?thesis using h1 h2 h3 by blast
qed

text \<open>
  The recipients are the sockets in the room, not the other participant. Ann has joined
  the room of session 50 from two tabs and Bob from one. When Ann's first socket
  disconnects, the event goes to Ann's own second socket as well as to Bob's.
\<close>

theorem disconnect_reaches_own_socket_counterexample:
  "sessions sv_two_tabs = [session_50]
   \<and> rooms sv_two_tabs ''room-50'' = [''sock-a'', ''sock-a2'', ''sock-b'']
   \<and> snd (on_event sv_two_tabs sock_ann (Disconnect ''transport close'') 7) =
       [(''sock-a2'', EvParticipantDisconnected 1 ''ann'' ''transport close''),
        (''sock-b'', EvParticipantDisconnected 1 ''ann'' ''transport close'')]
   \<and> sock_id sock_ann_new = ''sock-a2'' \<and> sock_userId sock_ann_new = sock_userId sock_ann"
  by (simp add: sv_two_tabs_def sv_idle_def session_50_def sock_ann_def sock_ann_new_def sock_bob_def
      on_connection_def findById_def isParticipant_def socket_join_def socket_to_def socket_emit_def
      leave_all_def activeSessions_def nat_str.simps)




text \<open>
  C9. On disconnect of an identity's socket the waiting pool loses exactly the entries
  of that identity whose recorded socket id is the id of the disconnecting socket; all
  other entries stay, in their order. So an entry of the identity with another recorded
  id stays, an entry of another identity stays, and an entry that the HTTP join created
  with the placeholder id \<open>temp-\<close> followed by the time, never updated since, stays
  as long as the socket's id is not that placeholder.
\<close>

theorem disconnect_removes_entries_of_socket:
  "waitingPool (fst (on_event sv sock (Disconnect reason) now)) =
     filter (\<lambda>e. \<not> (we_user e = sock_userId sock \<and> we_socketId e = sock_id sock)) (waitingPool sv)
   \<and> (\<forall>e \<in> set (waitingPool sv). we_user e = sock_userId sock \<longrightarrow>
         (e \<in> set (waitingPool (fst (on_event sv sock (Disconnect reason) now)))
            \<longleftrightarrow> we_socketId e \<noteq> sock_id sock))
   \<and> (\<forall>e \<in> set (waitingPool sv). we_user e \<noteq> sock_userId sock \<longrightarrow>
         e \<in> set (waitingPool (fst (on_event sv sock (Disconnect reason) now))))
   \<and> (join sv0 rq = (sv, AddedToPool e0, em0) \<and> jr_socketId rq = None
        \<and> sock_id sock \<noteq> ''temp-'' @ nat_str (jr_now rq) \<longrightarrow>
         e0 \<in> set (waitingPool (fst (on_event sv sock (Disconnect reason) now))))"
proof (intro conjI impI)
  assume a: "join sv0 rq = (sv, AddedToPool e0, em0) \<and> jr_socketId rq = None
      \<and> sock_id sock \<noteq> ''temp-'' @ nat_str (jr_now rq)"
  with join_AddedToPool_D [of sv0 rq sv e0 em0] obtain t
    where "e0 = new_entry rq t" "sv = sv0\<lparr>waitingPool := waitingPool sv0 @ [e0]\<rparr>"
    by blast
  with a show "e0 \<in> set (waitingPool (fst (on_event sv sock (Disconnect reason) now)))"
    by (auto simp: deleteMany_def disconnect_query_def new_entry_def)
qed (auto simp: deleteMany_def disconnect_query_def)

theorem disconnect_removes_entries_of_socket_witness:
  "join sv_idle join_ann = (sv_ann_waiting, AddedToPool entry_ann, []) \<and> jr_socketId join_ann = None
   \<and> entry_ann \<in> set (waitingPool (fst (on_event sv_ann_waiting sock_ann (Disconnect ''transport close'') 30)))
   \<and> entry_bob \<in> set (waitingPool sv_in_session)
   \<and> entry_bob \<notin> set (waitingPool (fst (on_event sv_in_session sock_bob (Disconnect ''transport close'') 30)))"
proof -
  have h: "jr_socketId join_ann = None" "sock_id sock_ann \<noteq> ''temp-'' @ nat_str (jr_now join_ann)"
    by (simp_all add: join_ann_def sock_ann_def)
  have p: "entry_bob \<in> set (waitingPool sv_in_session)"
    "we_user entry_bob = sock_userId sock_bob" "we_socketId entry_bob = sock_id sock_bob"
    by (simp_all add: sv_in_session_def entry_bob_def sock_bob_def)
  from disconnect_removes_entries_of_socket
    [of sv_ann_waiting sock_ann "''transport close''" 30 sv_idle join_ann entry_ann "[]"]
    join_ann_idle h
  have 1: "entry_ann \<in> set (waitingPool (fst (on_event sv_ann_waiting sock_ann (Disconnect ''transport close'') 30)))"
    by blast
  from disconnect_removes_entries_of_socket
    [of sv_in_session sock_bob "''transport close''" 30 sv_idle join_ann entry_ann "[]"] p
  have 2: "entry_bob \<notin> set (waitingPool (fst (on_event sv_in_session sock_bob (Disconnect ''transport close'') 30)))"
    by blast
  from 1 2 join_ann_idle h(1) p(1) show ?thesis by blast
qed

section \<open>The relay\<close>

text \<open>
  C8. For every state of the server, every socket and every room name, the handlers of
  \<open>offer\<close>, \<open>answer\<close>, \<open>ice-candidate\<close>, \<open>sessionMessage\<close> and
  \<open>typing\<close> leave the server unchanged and forward the payload, tagged with the
  sender, to every socket in that room other than the sender. Nothing is asked of the
  sender: it need not be in the room nor be a participant of any session, and no error
  event is ever emitted. The participant check is in \<open>joinSession\<close>: there a socket
  whose identity is not a participant of the session is answered "access denied".
\<close>

theorem relay_without_membership_check:
  "on_event sv sock (Offer r p) now =
     (sv, map (\<lambda>sid. (sid, EvOffer p (sock_userId sock))) (filter (\<lambda>sid. sid \<noteq> sock_id sock) (rooms sv r)))
   \<and> on_event sv sock (Answer r p) now =
     (sv, map (\<lambda>sid. (sid, EvAnswer p (sock_userId sock))) (filter (\<lambda>sid. sid \<noteq> sock_id sock) (rooms sv r)))
   \<and> on_event sv sock (IceCandidate r p) now =
     (sv, map (\<lambda>sid. (sid, EvIceCandidate p (sock_userId sock))) (filter (\<lambda>sid. sid \<noteq> sock_id sock) (rooms sv r)))
   \<and> on_event sv sock (SessionMessage r p) now =
     (sv, map (\<lambda>sid. (sid, EvSessionMessage p (sock_userId sock) (sock_username sock) now))
            (filter (\<lambda>sid. sid \<noteq> sock_id sock) (rooms sv r)))
   \<and> on_event sv sock (Typing r b) now =
     (sv, map (\<lambda>sid. (sid, EvTyping (sock_userId sock) (sock_username sock) b))
            (filter (\<lambda>sid. sid \<noteq> sock_id sock) (rooms sv r)))
   \<and> (\<forall>ev \<in> {Offer r p, Answer r p, IceCandidate r p, SessionMessage r p, Typing r b}.
        \<forall>em \<in> set (snd (on_event sv sock ev now)). \<not> is_error (snd em))
   \<and> (findById i (sessions sv) = Some S \<and> \<not> isParticipant S (sock_userId sock) \<longrightarrow>
        on_event sv sock (JoinSession (Oid i) r) now =
          (sv, [(sock_id sock, EvError ''Access denied to session'')]))"
  by (auto simp: socket_to_def socket_emit_def is_error_def)

theorem relay_without_membership_check_witness:
  "sock_id sock_cy \<notin> set (rooms sv_in_session ''room-50'')
   \<and> sessions sv_in_session = [session_50] \<and> \<not> isParticipant session_50 (sock_userId sock_cy)
   \<and> on_event sv_in_session sock_cy (Offer ''room-50'' ''sdp'') 40 =
       (sv_in_session, [(''sock-a'', EvOffer ''sdp'' 3), (''sock-b'', EvOffer ''sdp'' 3)])
   \<and> on_event sv_in_session sock_cy (JoinSession (Oid 50) ''room-50'') 40 =
       (sv_in_session, [(''sock-c'', EvError ''Access denied to session'')])"
proof -
  have h1: "findById 50 (sessions sv_in_session) = Some session_50"
    by (simp add: findById_def sv_in_session_def session_50_def)
  have h2: "\<not> isParticipant session_50 (sock_userId sock_cy)"
    by (simp add: isParticipant_def session_50_def sock_cy_def)
  have h3: "rooms sv_in_session ''room-50'' = [''sock-a'', ''sock-b'']" "sock_id sock_cy = ''sock-c''"
    "sock_userId sock_cy = 3" "sessions sv_in_session = [session_50]"
    by (simp_all add: sv_in_session_def sock_cy_def)
  from relay_without_membership_check
    [of sv_in_session sock_cy "''room-50''" "''sdp''" 40 False 50 session_50] h1 h2 h3
  show ?thesis by simp
qed

section \<open>Invariants of the collections\<close>

text \<open>
  Every session has two distinct participants, and the waiting entries have distinct ids:
  both hold of a server without sessions and without waiting entries, and every action
  of the server keeps them.
\<close>

lemma cancel_sessions_cases:
  "sessions (fst (cancel sv u ref now)) = sessions sv
   \<or> (\<exists>loaded doc. save_session loaded doc (sessions sv) = Some (sessions (fst (cancel sv u ref now))))"
  by (auto simp: cancel_def split: sum.splits option.splits)

lemma end_sessions_cases:
  "sessions (fst (end_session sv u sid now)) = sessions sv
   \<or> (\<exists>loaded doc. save_session loaded doc (sessions sv) = Some (sessions (fst (end_session sv u sid now))))"
  by (auto simp: end_session_def split: sum.splits option.splits)

lemma feedback_sessions_cases:
  "sessions (fst (feedback sv rq)) = sessions sv
   \<or> (\<exists>loaded doc. save_session loaded doc (sessions sv) = Some (sessions (fst (feedback sv rq))))"
  by (auto simp: feedback_def split: raw_id.splits sum.splits option.splits)

lemma join_sessions_cases:
  "sessions (fst (join sv rq)) = sessions sv
   \<or> (\<exists>t w. w \<in> set (waitingPool sv) \<and> waitingUser_query (jr_user rq) t w
        \<and> sessions (fst (join sv rq)) = sessions sv @ [new_session rq t w])"
proof (cases "\<exists>sv1 S e em. join sv rq = (sv1, MatchFound S e, em)")
  case True
  then obtain sv1 S e em where j: "join sv rq = (sv1, MatchFound S e, em)" by blast
  from join_MatchFound_D [OF j] obtain t
    where f: "find (waitingUser_query (jr_user rq) t) (waitingPool sv) = Some e"
      and S: "S = new_session rq t e" and i: "insert_session S (sessions sv) = Some (sessions sv1)"
    by blast
  have "pre_save (new_session rq t e) = new_session rq t e"
    by (simp add: pre_save_def new_session_def)
  with i S have "sessions sv1 = sessions sv @ [new_session rq t e]"
    by (auto simp: insert_session_def split: if_splits)
  with find_mem [OF f] j show ?thesis by auto
next
  case False
  then have "sessions (fst (join sv rq)) = sessions sv"
    by (auto simp: join_def split: raw_id.splits option.splits)
  then show ?thesis by simp
qed

lemma distinct_participants_step:
  assumes "distinct_participants sv"
  shows "distinct_participants (apply_action sv a)"
proof (cases a)
  case (HttpJoin rq)
  from join_sessions_cases [of sv rq] assms HttpJoin show ?thesis
    by (auto simp: distinct_participants_def new_session_def waitingUser_query_def)
next
  case (HttpLeave u t)
  with assms show ?thesis by (simp add: distinct_participants_def leave_sessions)
next
  case (HttpCancel u sid now)
  from cancel_sessions_cases [of sv u sid now] assms save_session_participants
  show ?thesis unfolding HttpCancel distinct_participants_def apply_action.simps by metis
next
  case (HttpEnd u sid now)
  from end_sessions_cases [of sv u sid now] assms save_session_participants
  show ?thesis unfolding HttpEnd distinct_participants_def apply_action.simps by metis
next
  case (HttpFeedback rq)
  from feedback_sessions_cases [of sv rq] assms save_session_participants
  show ?thesis unfolding HttpFeedback distinct_participants_def apply_action.simps by metis
next
  case (SocketConnect sock now)
  with assms show ?thesis by (simp add: distinct_participants_def on_connection_sessions)
next
  case (SocketEvent sock ev now)
  with assms show ?thesis by (simp add: distinct_participants_def on_event_sessions)
qed

lemma distinct_participants_run:
  "distinct_participants sv \<Longrightarrow> distinct_participants (run sv as)"
  by (induction as arbitrary: sv) (simp_all add: distinct_participants_step)

lemma delete_first_subset: "set (delete_first q pool) \<subseteq> set pool"
  by (induction pool) auto

lemma delete_first_distinct:
  "distinct (map we_id pool) \<Longrightarrow> distinct (map we_id (delete_first q pool))"
  using delete_first_subset [of q]
  by (induction pool) (auto simp: image_iff)

lemma update_first_ids:
  "(\<And>e. we_id (f e) = we_id e) \<Longrightarrow> map we_id (update_first q f pool) = map we_id pool"
  by (induction pool) auto

lemma deleteMany_distinct:
  "distinct (map we_id pool) \<Longrightarrow> distinct (map we_id (deleteMany q pool))"
  by (simp add: deleteMany_def distinct_map_filter)

lemma insert_entry_distinct:
  "distinct (map we_id pool) \<Longrightarrow> insert_entry e pool = Some pool' \<Longrightarrow> distinct (map we_id pool')"
proof -
  assume d: "distinct (map we_id pool)" and i: "insert_entry e pool = Some pool'"
  from i have p: "pool' = pool @ [e]" and n: "\<forall>x \<in> set pool. we_id x \<noteq> we_id e"
    by (auto simp: insert_entry_def split: if_splits)
  from n have "we_id e \<notin> we_id ` set pool" by (auto simp: image_iff)
  with d p show ?thesis by simp
qed

lemma join_pool_cases:
  "waitingPool (fst (join sv rq)) = waitingPool sv
   \<or> (\<exists>i. waitingPool (fst (join sv rq)) = deleteOne i (waitingPool sv))
   \<or> (\<exists>e. insert_entry e (waitingPool sv) = Some (waitingPool (fst (join sv rq))))"
  by (auto simp: join_def split: raw_id.splits option.splits)

lemma unique_entry_ids_step:
  assumes "unique_entry_ids sv"
  shows "unique_entry_ids (apply_action sv a)"
proof (cases a)
  case (HttpJoin rq)
  from join_pool_cases [of sv rq] assms show ?thesis
    unfolding HttpJoin unique_entry_ids_def apply_action.simps deleteOne_def
    using delete_first_distinct insert_entry_distinct by metis
next
  case (HttpLeave u t)
  with assms show ?thesis
    by (simp add: unique_entry_ids_def leave_def deleteMany_distinct)
next
  case (HttpCancel u sid now)
  with assms show ?thesis
    by (simp add: unique_entry_ids_def cancel_def deleteMany_distinct
        split: sum.splits option.splits)
next
  case (HttpEnd u sid now)
  with assms show ?thesis
    by (simp add: unique_entry_ids_def end_session_def split: sum.splits option.splits)
next
  case (HttpFeedback rq)
  with assms show ?thesis
    by (simp add: unique_entry_ids_def feedback_def split: raw_id.splits sum.splits option.splits)
next
  case (SocketConnect sock now)
  with assms show ?thesis by (simp add: unique_entry_ids_def on_connection_def)
next
  case (SocketEvent sock ev now)
  with assms show ?thesis
    by (cases ev)
      (simp_all add: unique_entry_ids_def update_first_ids delete_first_distinct
        deleteMany_distinct split: raw_id.splits option.splits)
qed

lemma unique_entry_ids_run:
  "unique_entry_ids sv \<Longrightarrow> unique_entry_ids (run sv as)"
  by (induction as arbitrary: sv) (simp_all add: unique_entry_ids_step)

section \<open>Counters\<close>

lemma inc_sessionsCompleted_apply:
  "map_option u_sessionsCompleted (inc_sessionsCompleted i us x) =
     (if x = i then map_option Suc (map_option u_sessionsCompleted (us x))
      else map_option u_sessionsCompleted (us x))"
  by (simp add: inc_sessionsCompleted_def split: option.splits)

lemma inc_sessionsCount_apply:
  "map_option t_sessionsCount (inc_sessionsCount i ts x) =
     (if x = i then map_option Suc (map_option t_sessionsCount (ts x))
      else map_option t_sessionsCount (ts x))"
  by (simp add: inc_sessionsCount_def split: option.splits)

lemma end_session_rejected:
  "\<not> is_ended_ok (fst (snd (end_session sv u sid now))) \<Longrightarrow> fst (end_session sv u sid now) = sv"
  by (auto simp: end_session_def split: sum.splits option.splits)

lemma end_session_accepted:
  assumes "is_ended_ok (fst (snd (end_session sv u (Oid i) now)))"
  shows "\<exists>s'. findById i (sessions (fst (end_session sv u (Oid i) now))) = Some s' \<and> terminal s'"
proof (cases "end_lookup sv u (Oid i) now")
  case (Inl r)
  with assms have "is_ended_ok r" by (simp add: end_session_refused)
  with Inl show ?thesis
    by (auto simp: end_lookup_def split: option.splits if_splits)
next
  case (Inr p)
  then obtain x doc where p: "end_lookup sv u (Oid i) now = Inr (x, doc)" by (cases p) simp
  from end_lookup_Inr [OF p]
  have i: "s_id x = i" and x: "findById (s_id x) (sessions sv) = Some x"
    and d: "doc = x\<lparr>s_status := Completed, s_endTime := Some now\<rparr>" by simp_all
  from x i d show ?thesis
    unfolding end_session_saves [OF p] by (simp add: findById_put_session terminal_def)
qed

lemma terminal_no_accepted_end:
  assumes "findById i (sessions sv) = Some s" "terminal s"
  shows "accepted_ends i sv as = 0"
  using assms
proof (induction as arbitrary: sv s)
  case Nil
  then show ?case by simp
next
  case (Cons a as)
  from status_step [OF Cons.prems(1), of a] Cons.prems(2)
  obtain s1 where s1: "findById i (sessions (apply_action sv a)) = Some s1" "terminal s1"
    by (auto simp: terminal_def)
  have rest: "accepted_ends i (apply_action sv a) as = 0"
    using Cons.IH [OF s1] .
  show ?case
  proof (cases a)
    case (HttpEnd u sid now)
    have "\<not> (sid = Oid i \<and> is_ended_ok (fst (snd (end_session sv u sid now))))"
      using Cons.prems by (auto simp: end_session_def end_lookup_found)
    with rest HttpEnd show ?thesis by simp
  qed (use rest in simp_all)
qed

lemma accepted_ends_le_1: "accepted_ends i sv as \<le> 1"
proof (induction as arbitrary: sv)
  case Nil
  then show ?case by simp
next
  case (Cons a as)
  show ?case
  proof (cases a)
    case (HttpEnd u sid now)
    show ?thesis
    proof (cases "sid = Oid i \<and> is_ended_ok (fst (snd (end_session sv u sid now)))")
      case True
      with end_session_accepted [of sv u i now]
      obtain s' where "findById i (sessions (apply_action sv a)) = Some s'" "terminal s'"
        using HttpEnd by auto
      from terminal_no_accepted_end [OF this] True HttpEnd show ?thesis by simp
    next
      case False
      with Cons.IH [of "apply_action sv a"] HttpEnd show ?thesis by auto
    qed
  qed (use Cons.IH in simp_all)
qed

text \<open>
  C10, for handlers that run one after the other. Let a participant call end on a
  session that is not yet completed or cancelled and whose two participants are
  distinct, as they are in every session the join handler creates. The call is accepted;
  the \<open>sessionsCompleted\<close> counters of both participants and the
  \<open>sessionsCount\<close> counter of the session's topic go up by exactly one, and no other
  counter changes. An end call right after it changes nothing. In general an end call
  that is not accepted leaves the server unchanged, and along any run of the server, in
  which every request is handled to its end before the next, at most one end call for a
  given session is accepted. So a session adds at most one to each counter.
\<close>

theorem end_counts_once:
  assumes found: "findById i (sessions sv) = Some s"
      and part: "isParticipant s u"
      and live: "\<not> terminal s"
      and two: "s_user1 s \<noteq> s_user2 s"
  shows "is_ended_ok (fst (snd (end_session sv u (Oid i) now)))
     \<and> sessionsCompleted_of (fst (end_session sv u (Oid i) now)) (s_user1 s) =
         map_option Suc (sessionsCompleted_of sv (s_user1 s))
     \<and> sessionsCompleted_of (fst (end_session sv u (Oid i) now)) (s_user2 s) =
         map_option Suc (sessionsCompleted_of sv (s_user2 s))
     \<and> (\<forall>x. x \<noteq> s_user1 s \<and> x \<noteq> s_user2 s \<longrightarrow>
           sessionsCompleted_of (fst (end_session sv u (Oid i) now)) x = sessionsCompleted_of sv x)
     \<and> sessionsCount_of (fst (end_session sv u (Oid i) now)) (s_topic s) =
         map_option Suc (sessionsCount_of sv (s_topic s))
     \<and> (\<forall>t. t \<noteq> s_topic s \<longrightarrow>
           sessionsCount_of (fst (end_session sv u (Oid i) now)) t = sessionsCount_of sv t)
     \<and> (\<forall>u' now'. fst (end_session (fst (end_session sv u (Oid i) now)) u' (Oid i) now') =
           fst (end_session sv u (Oid i) now))
     \<and> (\<forall>sv0 u0 sid0 now0. \<not> is_ended_ok (fst (snd (end_session sv0 u0 sid0 now0))) \<longrightarrow>
           fst (end_session sv0 u0 sid0 now0) = sv0)
     \<and> (\<forall>sv0 as. accepted_ends i sv0 as \<le> 1)"
proof -
  let ?sv' = "sv\<lparr>sessions := put_session (pre_save (s\<lparr>s_status := Completed, s_endTime := Some now\<rparr>)) (sessions sv),
                 users := inc_sessionsCompleted (s_user2 s) (inc_sessionsCompleted (s_user1 s) (users sv)),
                 topics := inc_sessionsCount (s_topic s) (topics sv)\<rparr>"
  have e: "end_session sv u (Oid i) now =
      (?sv', SessionEndedOk (pre_save (s\<lparr>s_status := Completed, s_endTime := Some now\<rparr>)),
       io_to (rooms sv) (s_roomId s) (EvSessionEnded (s_id s) u))"
    using found part live by (simp add: end_session_saves end_lookup_found)
  have ok: "is_ended_ok (fst (snd (end_session sv u (Oid i) now)))"
    by (simp add: e)
  from end_session_accepted [OF ok] obtain s' where
    s': "findById i (sessions (fst (end_session sv u (Oid i) now))) = Some s'" "terminal s'"
    by blast
  have second: "fst (end_session (fst (end_session sv u (Oid i) now)) u' (Oid i) now') =
      fst (end_session sv u (Oid i) now)" for u' now'
    using s' by (simp add: end_session_def end_lookup_found)
  have u1: "sessionsCompleted_of ?sv' (s_user1 s) = map_option Suc (sessionsCompleted_of sv (s_user1 s))"
    using two by (simp add: sessionsCompleted_of_def inc_sessionsCompleted_apply)
  have u2: "sessionsCompleted_of ?sv' (s_user2 s) = map_option Suc (sessionsCompleted_of sv (s_user2 s))"
    using two by (simp add: sessionsCompleted_of_def inc_sessionsCompleted_apply)
  have u3: "sessionsCompleted_of ?sv' x = sessionsCompleted_of sv x"
    if "x \<noteq> s_user1 s \<and> x \<noteq> s_user2 s" for x
    using that by (simp add: sessionsCompleted_of_def inc_sessionsCompleted_apply)
  have t1: "sessionsCount_of ?sv' (s_topic s) = map_option Suc (sessionsCount_of sv (s_topic s))"
    by (simp add: sessionsCount_of_def inc_sessionsCount_apply)
  have t2: "sessionsCount_of ?sv' t = sessionsCount_of sv t" if "t \<noteq> s_topic s" for t
    using that by (simp add: sessionsCount_of_def inc_sessionsCount_apply)
  from ok u1 u2 u3 t1 t2 second end_session_rejected accepted_ends_le_1
  show ?thesis unfolding e fst_conv by blast
qed

theorem end_counts_once_witness:
  "findById 50 (sessions sv_in_session) = Some session_50 \<and> isParticipant session_50 1
   \<and> \<not> terminal session_50 \<and> s_user1 session_50 \<noteq> s_user2 session_50
   \<and> sessionsCompleted_of sv_in_session 1 = Some 0
   \<and> sessionsCompleted_of (fst (end_session sv_in_session 1 (Oid 50) 20)) 1 = Some 1
   \<and> sessionsCompleted_of (fst (end_session sv_in_session 1 (Oid 50) 20)) 2 = Some 1
   \<and> sessionsCount_of (fst (end_session sv_in_session 1 (Oid 50) 20)) 7 = Some 1
   \<and> accepted_ends 50 sv_in_session [HttpEnd 1 (Oid 50) 20, HttpEnd 2 (Oid 50) 21, HttpEnd 1 (Oid 50) 22] \<le> 1"
proof -
  have h1: "findById 50 (sessions sv_in_session) = Some session_50"
    by (simp add: findById_def sv_in_session_def session_50_def)
  have h2: "isParticipant session_50 1" by (simp add: isParticipant_def session_50_def)
  have h3: "\<not> terminal session_50" by (simp add: terminal_def session_50_def)
  have h4: "s_user1 session_50 \<noteq> s_user2 session_50" by (simp add: session_50_def)
  have c: "sessionsCompleted_of sv_in_session 1 = Some 0" "sessionsCompleted_of sv_in_session 2 = Some 0"
    "sessionsCount_of sv_in_session 7 = Some 0"
    "s_user1 session_50 = 1" "s_user2 session_50 = 2" "s_topic session_50 = 7"
    by (simp_all add: sessionsCompleted_of_def sessionsCount_of_def sv_in_session_def sv_idle_def
        ex_users_def ex_topics_def session_50_def)
  note t = end_counts_once [OF h1 h2 h3 h4, of 20]
  from t c have 1: "sessionsCompleted_of (fst (end_session sv_in_session 1 (Oid 50) 20)) 1 = Some 1"
    by simp
  from t c have 2: "sessionsCompleted_of (fst (end_session sv_in_session 1 (Oid 50) 20)) 2 = Some 1"
    by simp
  from t c have 3: "sessionsCount_of (fst (end_session sv_in_session 1 (Oid 50) 20)) 7 = Some 1"
    by simp
  from t have "\<forall>sv0 as. accepted_ends 50 sv0 as \<le> 1" by blast
  then have 4: "accepted_ends 50 sv_in_session
      [HttpEnd 1 (Oid 50) 20, HttpEnd 2 (Oid 50) 21, HttpEnd 1 (Oid 50) 22] \<le> 1"
    by blast
  from 1 2 3 4 c(1) h1 h2 h3 h4 show ?thesis by blast
qed

text \<open>
  With two end handlers in flight a session is counted twice. Ann's and Bob's end calls
  both look session 50 up while it is active; both are accepted, and each of them
  increments the counters of both participants and of the topic.
\<close>

theorem double_end_counterexample:
  "map_option is_ended_ok (call_reply (fst (snd (interleave_calls end_overtaken two_ends)))) = Some True
   \<and> map_option is_ended_ok (call_reply (snd (snd (interleave_calls end_overtaken two_ends)))) = Some True
   \<and> sessionsCompleted_of (fst two_ends) 1 = Some 0
   \<and> sessionsCompleted_of (fst (interleave_calls end_overtaken two_ends)) 1 = Some 2
   \<and> sessionsCompleted_of (fst (interleave_calls end_overtaken two_ends)) 2 = Some 2
   \<and> sessionsCount_of (fst (interleave_calls end_overtaken two_ends)) 7 = Some 2"
  by (simp add: two_ends_def end_overtaken_def sv_in_session_def sv_idle_def session_50_def
      ex_users_def ex_topics_def end_lookup_def findById_def isParticipant_def save_session_def
      save_paths_def pre_save_def io_to_def inc_sessionsCompleted_def inc_sessionsCount_def
      sessionsCompleted_of_def sessionsCount_of_def)

end
